theory Spec2Isabelle
  imports Complex_Main "HOL-Library.AList"
begin

section \<open>Python values, truthiness and exceptions\<close>

text \<open>
  The plugin of \<^verbatim>\<open>integrate_ftrack_instances.py\<close> works on dictionaries whose values are
  dynamically typed.  The values that reach a metadata map are numbers, strings and the
  result of \<^verbatim>\<open>json.dumps\<close> on a small dictionary; the latter is kept structured
  (\<open>PDump\<close> of the dumped key/value pairs, in insertion order) so that its entries stay
  observable.  A Python float is the rational number it denotes; the product of two floats,
  which Python rounds, is a function of the environment.
\<close>

datatype pyval =
    PNone
  | PInt int
  | PFloat rat
  | PStr string
  | PDump "(string \<times> pyval) list"

fun truthy :: "pyval \<Rightarrow> bool" where
  "truthy PNone = False"
| "truthy (PInt i) = (i \<noteq> 0)"
| "truthy (PFloat r) = (r \<noteq> 0)"
| "truthy (PStr s) = (s \<noteq> [])"
| "truthy (PDump kvs) = True"

definition py_or :: "pyval \<Rightarrow> pyval \<Rightarrow> pyval" where
  "py_or a b = (if truthy a then a else b)"

datatype error = ValueError | KeyError | TypeError

definition ebind :: "error + 'a \<Rightarrow> ('a \<Rightarrow> error + 'b) \<Rightarrow> error + 'b" where
  "ebind m f = (case m of Inl e \<Rightarrow> Inl e | Inr x \<Rightarrow> f x)"

definition require :: "'a option \<Rightarrow> error + 'a" where
  "require v = (case v of None \<Rightarrow> Inl KeyError | Some x \<Rightarrow> Inr x)"

definition opt_int :: "int option \<Rightarrow> pyval" where
  "opt_int v = (case v of None \<Rightarrow> PNone | Some i \<Rightarrow> PInt i)"

definition opt_float :: "rat option \<Rightarrow> pyval" where
  "opt_float v = (case v of None \<Rightarrow> PNone | Some r \<Rightarrow> PFloat r)"

definition opt_str :: "string option \<Rightarrow> pyval" where
  "opt_str v = (case v of None \<Rightarrow> PNone | Some s \<Rightarrow> PStr s)"

definition truthy_str :: "string option \<Rightarrow> bool" where
  "truthy_str v = (case v of None \<Rightarrow> False | Some s \<Rightarrow> s \<noteq> [])"

section \<open>Data model\<close>

text \<open>
  A representation is a dictionary; the record keeps the keys the plugin reads.
  \<open>r_name\<close> and \<open>r_ext\<close> are read with \<^verbatim>\<open>repre["name"]\<close> and \<^verbatim>\<open>repre["ext"]\<close>
  and are present on every representation; all other keys are read with \<^verbatim>\<open>.get\<close>,
  \<open>None\<close> standing for an absent key (or a stored \<^verbatim>\<open>None\<close>).  The key
  \<^verbatim>\<open>tags\<close> is read both with \<^verbatim>\<open>.get("tags") or []\<close> and with
  \<^verbatim>\<open>.get("tags", [])\<close>, which differ on a stored \<^verbatim>\<open>None\<close>, so its three states are
  kept apart.
\<close>

datatype tags_entry = TagsAbsent | TagsNone | TagsList "string list"

record repre =
  r_name :: string
  r_ext :: string
  r_tags :: tags_entry
  r_thumbnail :: bool
  r_outputName :: "string option"
  r_fps :: pyval
  r_width :: "int option"
  r_height :: "int option"
  r_frameStartFtrack :: "int option"
  r_frameEndFtrack :: "int option"

text \<open>One stream of the ffprobe report; \<open>codec_type\<close> is read with \<^verbatim>\<open>stream["codec_type"]\<close>.\<close>

record stream =
  codec_type :: string
  codec_long_name :: "string option"
  codec :: "string option"
  pix_fmt :: "string option"
  st_width :: "int option"
  st_height :: "int option"
  r_frame_rate :: "string option"
  st_duration :: "string option"

record status_profile =
  sp_filters :: "(string \<times> string list) list"
  sp_status :: string

text \<open>The class attributes of the plugin that the settings overwrite.\<close>

record config =
  product_type_mapping :: "(string \<times> string) list"
  keep_first_product_name_for_review :: bool
  upload_reviewable_with_origin_name :: bool
  asset_versions_status_profiles :: "status_profile list"
  additional_metadata_keys :: "string list"

text \<open>
  Everything the plugin imports from outside this file is a field of the environment:
  the path resolution of \<^verbatim>\<open>ayon_core\<close> (for the instance at hand), the media probe
  (\<open>None\<close> when it raises), the two conversions to float (\<open>None\<close> for
  \<^verbatim>\<open>ValueError\<close>), the rounded product of two floats, the extension tables, the version strings, the two custom attribute
  keys, the profile filter and the two \<^verbatim>\<open>os.path\<close> functions.
\<close>

record env =
  get_publish_repre_path :: "repre \<Rightarrow> bool \<Rightarrow> string option"
  get_ffprobe_streams :: "string \<Rightarrow> stream list option"
  convert_ffprobe_fps_to_float :: "string \<Rightarrow> rat option"
  float_of_str :: "string \<Rightarrow> rat option"
  float_product :: "rat \<Rightarrow> rat \<Rightarrow> rat"
  VIDEO_EXTENSIONS :: "string list"
  IMAGE_EXTENSIONS :: "string list"
  get_ayon_launcher_version :: string
  ayon_ftrack_version :: string
  CUST_ATTR_KEY_SERVER_ID :: string
  CUST_ATTR_KEY_SERVER_PATH :: string
  filter_profiles :: "status_profile list \<Rightarrow> string \<times> string \<times> string option \<Rightarrow> status_profile option"
  path_splitext :: "string \<Rightarrow> string \<times> string"
  path_basename :: "string \<Rightarrow> string"

text \<open>
  The publish instance: \<^verbatim>\<open>instance.data\<close> (prefix \<open>i_\<close>) and
  \<^verbatim>\<open>instance.context.data\<close> (prefix \<open>c_\<close>).  \<open>None\<close> is an absent key.
\<close>

record publish_instance =
  i_representations :: "repre list option"
  i_version :: "int option"
  i_productType :: "string option"
  i_ftrackFamily :: "string option"
  i_productName :: "string option"
  i_folderPath :: "string option"
  i_versionEntity :: "(int \<times> string) option"
  i_fps :: pyval
  i_frameStart :: "int option"
  i_frameEnd :: "int option"
  i_anatomy_task_type :: "string option option"
  c_comment :: "string option"
  c_fps :: "pyval option"
  c_hostName :: "string option"

record component_data =
  cd_name :: string
  cd_metadata :: "(string \<times> pyval) list"

record component_item =
  assettype_short :: string
  asset_name :: string
  av_version :: int
  av_comment :: string
  av_status_name :: "string option"
  av_custom_attributes :: "(string \<times> string) list"
  component_overwrite :: bool
  thumbnail :: bool
  component_data :: "component_data option"
  component_path :: "string option"
  component_location :: "string option"
  component_location_name :: "string option"
  additional_data :: "(string \<times> pyval) list"

section \<open>Small helpers of the plugin\<close>

text \<open>
  \<^verbatim>\<open>repre.get("tags") or []\<close>.  It is also the value of \<^verbatim>\<open>repre.get("tags", [])\<close>
  on a review representation, whose tags are a list with \<^verbatim>\<open>"ftrackreview"\<close> in it.
\<close>

definition tags_of :: "repre \<Rightarrow> string list" where
  "tags_of r = (case r_tags r of TagsList ts \<Rightarrow> ts | _ \<Rightarrow> [])"

text \<open>
  \<^verbatim>\<open>x in repre.get("tags", [])\<close> on any representation: a stored \<^verbatim>\<open>None\<close> is
  returned as it is, and the membership test on it is a \<^verbatim>\<open>TypeError\<close>.
\<close>

definition tags_or_default :: "repre \<Rightarrow> error + string list" where
  "tags_or_default r =
    (case r_tags r of
       TagsAbsent \<Rightarrow> Inr []
     | TagsNone \<Rightarrow> Inl TypeError
     | TagsList ts \<Rightarrow> Inr ts)"

definition is_repre_video :: "env \<Rightarrow> repre \<Rightarrow> bool" where
  "is_repre_video E r = ((''.'' @ r_ext r) \<in> set (VIDEO_EXTENSIONS E))"

definition is_repre_image :: "env \<Rightarrow> repre \<Rightarrow> bool" where
  "is_repre_image E r = ((''.'' @ r_ext r) \<in> set (IMAGE_EXTENSIONS E))"

definition metadata_keys_to_label :: "(string \<times> string) list" where
  "metadata_keys_to_label =
    [(''ayon_ftrack_version'', ''AYON ftrack version''),
     (''ayon_launcher_version'', ''AYON launcher version''),
     (''frame_start'', ''Frame start''),
     (''frame_end'', ''Frame end''),
     (''duration'', ''Duration''),
     (''width'', ''Resolution width''),
     (''height'', ''Resolution height''),
     (''fps'', ''FPS''),
     (''codec'', ''Codec'')]"

definition label_of :: "string \<Rightarrow> error + string" where
  "label_of key = require (map_of metadata_keys_to_label key)"

definition py_float :: "env \<Rightarrow> pyval \<Rightarrow> error + rat" where
  "py_float E v =
    (case v of
       PNone \<Rightarrow> Inl TypeError
     | PInt i \<Rightarrow> Inr (of_int i)
     | PFloat r \<Rightarrow> Inr r
     | PStr s \<Rightarrow> (case float_of_str E s of None \<Rightarrow> Inl ValueError | Some r \<Rightarrow> Inr r)
     | PDump kvs \<Rightarrow> Inl ValueError)"

section \<open>Metadata of a component\<close>

subsection \<open>Images\<close>

text \<open>The loop over the probed streams: the first stream with both keys wins.\<close>

fun first_stream_size ::
  "stream list \<Rightarrow> int option \<times> int option \<Rightarrow> int option \<times> int option" where
  "first_stream_size [] wh = wh"
| "first_stream_size (s # ss) wh =
    (if st_width s \<noteq> None \<and> st_height s \<noteq> None
     then (st_width s, st_height s)
     else first_stream_size ss wh)"

text \<open>
  \<^verbatim>\<open>streams = []; try: streams = get_ffprobe_streams(path); except Exception: ...\<close>.
  The path an item carries may be \<^verbatim>\<open>None\<close>; the probe then raises inside the
  \<^verbatim>\<open>try\<close>.
\<close>

definition probe_streams :: "env \<Rightarrow> string option \<Rightarrow> stream list" where
  "probe_streams E cpath =
    (case cpath of
       None \<Rightarrow> []
     | Some p \<Rightarrow> (case get_ffprobe_streams E p of None \<Rightarrow> [] | Some ss \<Rightarrow> ss))"

definition prepare_image_component_metadata ::
  "env \<Rightarrow> repre \<Rightarrow> string option \<Rightarrow> (string \<times> pyval) list" where
  "prepare_image_component_metadata E r cpath =
    (let wh =
       (if \<not> truthy (opt_int (r_width r)) \<or> \<not> truthy (opt_int (r_height r))
        then first_stream_size (probe_streams E cpath) (r_width r, r_height r)
        else (r_width r, r_height r))
     in if truthy (opt_int (fst wh)) \<and> truthy (opt_int (snd wh))
        then [(''ftr_meta'',
               PDump [(''width'', opt_int (fst wh)), (''height'', opt_int (snd wh)),
                      (''format'', PStr ''image'')])]
        else [])"

subsection \<open>Videos\<close>

text \<open>The variables the loop over the video streams assigns.\<close>

record stream_info =
  stream_width :: "int option"
  stream_height :: "int option"
  stream_fps :: "rat option"
  frame_out :: "rat option"
  codec_label :: "string option"

definition stream_codec_label :: "stream \<Rightarrow> string option" where
  "stream_codec_label vs =
    (let c = (if truthy_str (codec_long_name vs) then codec_long_name vs else codec vs)
     in if truthy_str c \<and> truthy_str (pix_fmt vs)
        then Some (the c @ '' ('' @ the (pix_fmt vs) @ '')'')
        else c)"

text \<open>
  One run of the loop body per stream; \<^verbatim>\<open>continue\<close> recurses on the rest,
  \<^verbatim>\<open>break\<close> returns.  \<^verbatim>\<open>float(stream_duration)\<close> is outside the \<^verbatim>\<open>try\<close>: its
  \<^verbatim>\<open>ValueError\<close> leaves the function.
\<close>

fun scan_video_streams :: "env \<Rightarrow> stream list \<Rightarrow> stream_info \<Rightarrow> error + stream_info" where
  "scan_video_streams E [] acc = Inr acc"
| "scan_video_streams E (vs # rest) acc =
    (let acc1 = acc\<lparr>codec_label := stream_codec_label vs\<rparr>;
         acc2 = (if truthy (opt_int (st_width vs)) \<and> truthy (opt_int (st_height vs))
                 then acc1\<lparr>stream_width := st_width vs, stream_height := st_height vs\<rparr>
                 else acc1)
     in case (r_frame_rate vs, st_duration vs) of
          (Some input_framerate, Some stream_duration) \<Rightarrow>
            (case convert_ffprobe_fps_to_float E input_framerate of
               None \<Rightarrow> scan_video_streams E rest acc2
             | Some f \<Rightarrow>
                 (case float_of_str E stream_duration of
                    None \<Rightarrow> Inl ValueError
                  | Some d \<Rightarrow>
                      Inr (acc2\<lparr>stream_fps := Some f,
                                 stream_width := st_width vs,
                                 stream_height := st_height vs,
                                 frame_out := Some (float_product E d f)\<rparr>)))
        | _ \<Rightarrow> scan_video_streams E rest acc2)"

definition add_labeled ::
  "config \<Rightarrow> string \<times> pyval \<Rightarrow> (string \<times> pyval) list \<Rightarrow> error + (string \<times> pyval) list" where
  "add_labeled C kv metadata =
    (if \<not> truthy (snd kv) \<or> fst kv \<notin> set (additional_metadata_keys C)
     then Inr metadata
     else ebind (label_of (fst kv)) (\<lambda>label. Inr (AList.update label (snd kv) metadata)))"

fun add_all_labeled ::
  "config \<Rightarrow> (string \<times> pyval) list \<Rightarrow> (string \<times> pyval) list \<Rightarrow> error + (string \<times> pyval) list" where
  "add_all_labeled C [] metadata = Inr metadata"
| "add_all_labeled C (kv # kvs) metadata =
    ebind (add_labeled C kv metadata) (add_all_labeled C kvs)"

text \<open>The first loop of the function: the two version entries, not filtered by truthiness.\<close>

definition add_version ::
  "config \<Rightarrow> string \<times> pyval \<Rightarrow> (string \<times> pyval) list \<Rightarrow> error + (string \<times> pyval) list" where
  "add_version C kv metadata =
    (if fst kv \<in> set (additional_metadata_keys C)
     then ebind (label_of (fst kv)) (\<lambda>label. Inr (AList.update label (snd kv) metadata))
     else Inr metadata)"

definition version_metadata :: "config \<Rightarrow> env \<Rightarrow> error + (string \<times> pyval) list" where
  "version_metadata C E =
    ebind (add_version C (''ayon_ftrack_version'', PStr (ayon_ftrack_version E)) [])
      (add_version C (''ayon_launcher_version'', PStr (get_ayon_launcher_version E)))"

text \<open>
  The effective values of the function, after the loop over the streams.  A path of
  \<^verbatim>\<open>None\<close> makes \<^verbatim>\<open>os.path.splitext\<close> raise \<^verbatim>\<open>TypeError\<close>.
\<close>

definition instance_fps :: "publish_instance \<Rightarrow> error + pyval" where
  "instance_fps I = (if i_fps I = PNone then require (c_fps I) else Inr (i_fps I))"

definition repre_fps :: "env \<Rightarrow> repre \<Rightarrow> error + pyval" where
  "repre_fps E r =
    (if r_fps r = PNone then Inr PNone
     else ebind (py_float E (r_fps r)) (\<lambda>f. Inr (PFloat f)))"

definition frame_range :: "publish_instance \<Rightarrow> repre \<Rightarrow> error + int \<times> int" where
  "frame_range I r =
    (case (r_frameStartFtrack r, r_frameEndFtrack r) of
       (Some fs, Some fe) \<Rightarrow> Inr (fs, fe)
     | _ \<Rightarrow> ebind (require (i_frameStart I)) (\<lambda>fs.
            ebind (require (i_frameEnd I)) (\<lambda>fe. Inr (fs, fe))))"

definition video_fields ::
  "pyval \<Rightarrow> int \<Rightarrow> int \<Rightarrow> stream_info \<Rightarrow> (string \<times> pyval) list" where
  "video_fields fps frame_start frame_end si =
    [(''fps'', fps),
     (''frame_start'', PInt frame_start),
     (''frame_end'', PInt frame_end),
     (''duration'', PInt ((frame_end - frame_start) + 1)),
     (''width'', opt_int (stream_width si)),
     (''height'', opt_int (stream_height si)),
     (''fps'', fps),
     (''codec'', opt_str (codec_label si))]"

text \<open>
  The values the function settles after the loop: the stream findings, the effective fps
  (\<^verbatim>\<open>stream_fps or repre_fps or instance_fps\<close>) and the frame range.
\<close>

definition initial_stream_info :: stream_info where
  "initial_stream_info =
    \<lparr>stream_width = None, stream_height = None, stream_fps = None,
     frame_out = None, codec_label = None\<rparr>"

definition video_values ::
  "env \<Rightarrow> publish_instance \<Rightarrow> repre \<Rightarrow> stream list
     \<Rightarrow> error + stream_info \<times> pyval \<times> int \<times> int" where
  "video_values E I r video_streams =
    ebind (scan_video_streams E video_streams initial_stream_info) (\<lambda>si.
    ebind (instance_fps I) (\<lambda>ifps.
    ebind (repre_fps E r) (\<lambda>rfps.
    ebind (frame_range I r) (\<lambda>fr.
      Inr (si, py_or (py_or (opt_float (stream_fps si)) rfps) ifps, fst fr, snd fr)))))"

text \<open>The dictionary given to \<^verbatim>\<open>json.dumps\<close> for the \<^verbatim>\<open>ftr_meta\<close> key.\<close>

definition video_ftr_meta ::
  "env \<Rightarrow> bool \<Rightarrow> pyval \<Rightarrow> stream_info \<Rightarrow> int \<Rightarrow> error + pyval" where
  "video_ftr_meta E is_review fps si duration =
    (if \<not> is_review then
       Inr (PDump ((if truthy fps then [(''frameRate'', fps)] else []) @
                   (if truthy (opt_int (stream_width si)) \<and> truthy (opt_int (stream_height si))
                    then [(''width'', opt_int (stream_width si)),
                          (''height'', opt_int (stream_height si))]
                    else [])))
     else
       ebind (py_float E fps) (\<lambda>rate.
         Inr (PDump [(''frameIn'', PInt 0),
                     (''frameOut'',
                        (if truthy (opt_float (frame_out si))
                         then opt_float (frame_out si) else PInt duration)),
                     (''frameRate'', PFloat rate)])))"

text \<open>The function past the early return on a file without video streams.\<close>

definition video_metadata_tail ::
  "config \<Rightarrow> env \<Rightarrow> publish_instance \<Rightarrow> repre \<Rightarrow> bool \<Rightarrow> stream list
     \<Rightarrow> (string \<times> pyval) list \<Rightarrow> error + (string \<times> pyval) list" where
  "video_metadata_tail C E I r is_review video_streams metadata =
    ebind (video_values E I r video_streams) (\<lambda>(si, fps, frame_start, frame_end).
    ebind (add_all_labeled C (video_fields fps frame_start frame_end si) metadata)
      (\<lambda>labeled.
    ebind (video_ftr_meta E is_review fps si ((frame_end - frame_start) + 1)) (\<lambda>payload.
      Inr (AList.update ''ftr_meta'' payload labeled))))"

definition path_extension :: "env \<Rightarrow> string option \<Rightarrow> error + string" where
  "path_extension E cpath =
    (case cpath of None \<Rightarrow> Inl TypeError | Some p \<Rightarrow> Inr (snd (path_splitext E p)))"

definition prepare_video_component_metadata ::
  "config \<Rightarrow> env \<Rightarrow> publish_instance \<Rightarrow> repre \<Rightarrow> string option \<Rightarrow> bool
     \<Rightarrow> error + (string \<times> pyval) list" where
  "prepare_video_component_metadata C E I r cpath is_review =
    ebind (version_metadata C E) (\<lambda>metadata.
    ebind (path_extension E cpath) (\<lambda>extension.
      let video_streams = filter (\<lambda>s. codec_type s = ''video'') (probe_streams E cpath)
      in if video_streams = [] \<and> extension \<noteq> ''.exr'' then Inr metadata
         else video_metadata_tail C E I r is_review video_streams metadata))"

definition prepare_component_metadata ::
  "config \<Rightarrow> env \<Rightarrow> publish_instance \<Rightarrow> repre \<Rightarrow> string option \<Rightarrow> bool
     \<Rightarrow> error + (string \<times> pyval) list" where
  "prepare_component_metadata C E I r cpath is_review =
    (if is_repre_video E r
     then prepare_video_component_metadata C E I r cpath is_review
     else if is_repre_image E r
     then Inr (prepare_image_component_metadata E r cpath)
     else Inr [])"

section \<open>Matching a thumbnail to a review\<close>

text \<open>
  \<^verbatim>\<open>current_item_data\<close>: one entry of \<^verbatim>\<open>thumbnail_data_items\<close>.  The two component
  items are objects shared with other variables, so the entry holds their addresses in the
  store of component items.
\<close>

record thumbnail_data =
  sync_key :: "string option"
  representation :: repre
  td_item :: nat
  src_component :: "nat option"

datatype warning =
    NoMatchingThumbnail "string option"
  | NoThumbnailItems

definition in_tags :: "string option \<Rightarrow> string list \<Rightarrow> bool" where
  "in_tags k tags = (case k of None \<Rightarrow> False | Some s \<Rightarrow> s \<in> set tags)"

text \<open>The result of the function, with the warnings it logs on the way.\<close>

definition get_matching_thumbnail_item ::
  "repre \<Rightarrow> thumbnail_data list \<Rightarrow> bool \<Rightarrow> warning list \<times> thumbnail_data option" where
  "get_matching_thumbnail_item review_representation thumbnail_data_items
       are_multiple_synced_thumbnails =
    (case thumbnail_data_items of
       [] \<Rightarrow> ([], None)
     | first_item # _ \<Rightarrow>
         if \<not> are_multiple_synced_thumbnails then ([], Some first_item)
         else
           let output_name = r_outputName review_representation;
               tags = tags_of review_representation
           in (case find (\<lambda>thumb_item. sync_key thumb_item = output_name
                                         \<or> in_tags (sync_key thumb_item) tags)
                         thumbnail_data_items of
                 Some thumb_item \<Rightarrow> ([], Some thumb_item)
               | None \<Rightarrow> ([NoMatchingThumbnail output_name], Some first_item)))"

section \<open>Naming and shadow components\<close>

definition make_extended_component_name ::
  "config \<Rightarrow> component_item \<Rightarrow> repre \<Rightarrow> nat \<Rightarrow> string option" where
  "make_extended_component_name C ci r iteration_index =
    (if keep_first_product_name_for_review C \<and> iteration_index = 0 then None
     else Some (asset_name ci @ ''_'' @ r_name r))"

text \<open>
  The function mutates and returns the item it is given; every caller passes a fresh deep
  copy, so the model takes and returns the value.  \<^verbatim>\<open>component_data["name"]\<close> on
  \<^verbatim>\<open>None\<close> is a \<^verbatim>\<open>TypeError\<close>.
\<close>

definition create_src_component ::
  "config \<Rightarrow> env \<Rightarrow> publish_instance \<Rightarrow> repre \<Rightarrow> component_item \<Rightarrow> string
     \<Rightarrow> error + component_item" where
  "create_src_component C E I r ci location =
    (case component_data ci of
       None \<Rightarrow> Inl TypeError
     | Some cd \<Rightarrow>
         ebind (prepare_component_metadata C E I r (component_path ci) False) (\<lambda>metadata.
           Inr (ci\<lparr>thumbnail := False,
                   component_location_name := Some location,
                   component_data :=
                     Some \<lparr>cd_name = cd_name cd @ ''_src'', cd_metadata = metadata\<rparr>\<rparr>)))"

section \<open>The base component item\<close>

definition lower_char :: "char \<Rightarrow> char" where
  "lower_char c =
    (let n = (of_char c :: nat) in if 65 \<le> n \<and> n \<le> 90 then char_of (n + 32) else c)"

text \<open>\<^verbatim>\<open>str.lower\<close> on ASCII text.\<close>

definition lower :: "string \<Rightarrow> string" where
  "lower s = map lower_char s"

definition mapped_asset_type :: "config \<Rightarrow> string \<Rightarrow> string option" where
  "mapped_asset_type C product_type_low =
    map_option snd (find (\<lambda>item. lower (fst item) = product_type_low) (product_type_mapping C))"

definition asset_type_of :: "config \<Rightarrow> publish_instance \<Rightarrow> string \<Rightarrow> string" where
  "asset_type_of C I product_type =
    (let a1 = (if truthy_str (i_ftrackFamily I) then i_ftrackFamily I
               else (case mapped_asset_type C (lower product_type) of
                       None \<Rightarrow> i_ftrackFamily I
                     | Some a \<Rightarrow> Some a))
     in if truthy_str a1 then the a1 else ''upload'')"

definition get_asset_version_status_name ::
  "config \<Rightarrow> env \<Rightarrow> publish_instance \<Rightarrow> error + string option" where
  "get_asset_version_status_name C E I =
    (if asset_versions_status_profiles C = [] then Inr None
     else
       ebind (require (i_anatomy_task_type I)) (\<lambda>task_type.
       ebind (require (i_productType I)) (\<lambda>product_type.
       ebind (require (c_hostName I)) (\<lambda>host_name.
         case filter_profiles E (asset_versions_status_profiles C)
                (product_type, host_name, task_type) of
           None \<Rightarrow> Inr None
         | Some matching_profile \<Rightarrow>
             Inr (if sp_status matching_profile = [] then None
                  else Some (sp_status matching_profile))))))"

fun digits :: "nat \<Rightarrow> string" where
  "digits n =
    (if n < 10 then [char_of (48 + n)] else digits (n div 10) @ [char_of (48 + n mod 10)])"

definition str_of_int :: "int \<Rightarrow> string" where
  "str_of_int i = (if i < 0 then CHR ''-'' # digits (nat (- i)) else digits (nat i))"

text \<open>\<^verbatim>\<open>"v{:0>3}".format(version)\<close>: right-aligned, filled with zeros to three characters.\<close>

definition version_label :: "int \<Rightarrow> string" where
  "version_label v =
    (let s = str_of_int v in ''v'' @ replicate (3 - length s) CHR ''0'' @ s)"

definition version_custom_attributes ::
  "env \<Rightarrow> publish_instance \<Rightarrow> error + (string \<times> string) list" where
  "version_custom_attributes E I =
    (case i_versionEntity I of
       None \<Rightarrow> Inr []
     | Some (entity_version, entity_id) \<Rightarrow>
         ebind (require (i_folderPath I)) (\<lambda>folder_path.
         ebind (require (i_productName I)) (\<lambda>product_name.
           Inr (AList.update (CUST_ATTR_KEY_SERVER_PATH E)
                  (folder_path @ ''/'' @ product_name @ ''/'' @ version_label entity_version)
                  (AList.update (CUST_ATTR_KEY_SERVER_ID E) entity_id [])))))"

definition base_component_item ::
  "string \<Rightarrow> string \<Rightarrow> int \<Rightarrow> string \<Rightarrow> string option \<Rightarrow> (string \<times> string) list
     \<Rightarrow> component_item" where
  "base_component_item asset_type product_name version_number comment status_name attrs =
    \<lparr>assettype_short = asset_type,
     asset_name = product_name,
     av_version = version_number,
     av_comment = comment,
     av_status_name = status_name,
     av_custom_attributes = attrs,
     component_overwrite = False,
     thumbnail = False,
     component_data = None,
     component_path = None,
     component_location = None,
     component_location_name = None,
     additional_data = []\<rparr>"

section \<open>Classification of the representations\<close>

record buckets =
  review_representations :: "repre list"
  thumbnail_representations :: "repre list"
  other_representations :: "repre list"
  has_movie_review :: bool

definition classify_repre :: "env \<Rightarrow> buckets \<Rightarrow> repre \<Rightarrow> buckets" where
  "classify_repre E b r =
    (let repre_tags = tags_of r in
     if ''publish_on_farm'' \<in> set repre_tags then b
     else if r_thumbnail r \<or> ''thumbnail'' \<in> set repre_tags
     then b\<lparr>thumbnail_representations := thumbnail_representations b @ [r]\<rparr>
     else if ''ftrackreview'' \<in> set repre_tags \<and> truthy_str (get_publish_repre_path E r False)
     then b\<lparr>review_representations := review_representations b @ [r],
             has_movie_review := (has_movie_review b \<or> is_repre_video E r)\<rparr>
     else b\<lparr>other_representations := other_representations b @ [r]\<rparr>)"

definition classify :: "env \<Rightarrow> repre list \<Rightarrow> buckets" where
  "classify E instance_repres =
    foldl (classify_repre E)
      \<lparr>review_representations = [], thumbnail_representations = [],
       other_representations = [], has_movie_review = False\<rparr>
      instance_repres"

definition synced_multiple_output_names :: "repre list \<Rightarrow> repre list \<Rightarrow> string option list" where
  "synced_multiple_output_names reviews thumbs =
    concat (map (\<lambda>review_repre.
      if \<not> truthy_str (r_outputName review_repre) then []
      else map r_outputName
             (filter (\<lambda>thumb_repre.
                        (truthy_str (r_outputName thumb_repre)
                           \<and> r_outputName thumb_repre = r_outputName review_repre)
                        \<or> in_tags (r_outputName thumb_repre) (tags_of review_repre))
                     thumbs))
      reviews)"



section \<open>The store of component items and the assembly state\<close>

text \<open>
  Component items are mutable dictionaries, and the same item can be reachable from the
  component list and from an entry of \<^verbatim>\<open>thumbnail_data_items\<close>.  An item that is
  shared lives in a store, at the address it got when it was created; the component list is
  a list of addresses.  \<^verbatim>\<open>copy.deepcopy\<close> reads a value from the store, and the copy gets
  a new address when it is appended.  Nested dictionaries are never shared between two
  items (each is created fresh or comes from a deep copy), so an item is one store cell.
\<close>

record asm_state =
  store :: "component_item list"
  component_list :: "nat list"
  thumbnail_data_items :: "thumbnail_data list"
  thumbnail_item :: "nat option"
  extended_asset_name :: "string option"

definition alloc :: "component_item \<Rightarrow> asm_state \<Rightarrow> nat \<times> asm_state" where
  "alloc ci s = (length (store s), s\<lparr>store := store s @ [ci]\<rparr>)"

definition append_component :: "nat \<Rightarrow> asm_state \<Rightarrow> asm_state" where
  "append_component a s = s\<lparr>component_list := component_list s @ [a]\<rparr>"

text \<open>Append an item no other variable keeps: it is stored and listed in one step.\<close>

definition append_new :: "component_item \<Rightarrow> asm_state \<Rightarrow> asm_state" where
  "append_new ci s = (let (a, s1) = alloc ci s in append_component a s1)"

text \<open>\<^verbatim>\<open>item["asset_data"]["name"] = name\<close> on the item at an address.\<close>

definition set_asset_name :: "nat \<Rightarrow> string \<Rightarrow> asm_state \<Rightarrow> asm_state" where
  "set_asset_name a n s = s\<lparr>store := (store s)[a := (store s ! a)\<lparr>asset_name := n\<rparr>]\<rparr>"

text \<open>Append, in order, items no other variable keeps.\<close>

definition append_all :: "component_item list \<Rightarrow> asm_state \<Rightarrow> asm_state" where
  "append_all cs s = foldl (\<lambda>s1 ci. append_new ci s1) s cs"

definition unmanaged_location_name :: string where
  "unmanaged_location_name = ''ftrack.unmanaged''"

definition ftrack_server_location_name :: string where
  "ftrack_server_location_name = ''ftrack.server''"

section \<open>Thumbnail components\<close>

definition thumbnail_component ::
  "env \<Rightarrow> component_item \<Rightarrow> bool \<Rightarrow> repre \<Rightarrow> string option \<Rightarrow> component_item" where
  "thumbnail_component E base has_reviews r repre_path =
    base\<lparr>component_path := repre_path,
         component_data := Some \<lparr>
           cd_name = (if has_reviews then ''thumbnail'' else ''ftrackreview-image''),
           cd_metadata = prepare_image_component_metadata E r repre_path\<rparr>,
         thumbnail := True,
         component_location_name := Some ftrack_server_location_name\<rparr>"

definition thumbnail_step ::
  "config \<Rightarrow> env \<Rightarrow> publish_instance \<Rightarrow> component_item \<Rightarrow> bool \<Rightarrow> repre \<Rightarrow> asm_state
     \<Rightarrow> error + asm_state" where
  "thumbnail_step C E I base has_reviews r s =
    (let repre_path = get_publish_repre_path E r False in
     if \<not> truthy_str repre_path then Inr s
     else
       let new_item = thumbnail_component E base has_reviews r repre_path;
           (a, s1) = alloc new_item s;
           s2 = s1\<lparr>thumbnail_item := Some a\<rparr>;
           current_item_data =
             \<lparr>sync_key = r_outputName r, representation = r, td_item = a,
              src_component = None\<rparr>
       in ebind (tags_or_default r) (\<lambda>tags.
          if ''delete'' \<notin> set tags
          then
            ebind (create_src_component C E I r new_item unmanaged_location_name) (\<lambda>src_comp.
              let (b, s3) = alloc src_comp s2;
                  s4 = append_component b s3
              in Inr (s4\<lparr>thumbnail_data_items :=
                          thumbnail_data_items s4
                            @ [current_item_data\<lparr>src_component := Some b\<rparr>]\<rparr>))
          else Inr (s2\<lparr>thumbnail_data_items :=
                         thumbnail_data_items s2 @ [current_item_data]\<rparr>)))"

fun thumbnail_loop ::
  "config \<Rightarrow> env \<Rightarrow> publish_instance \<Rightarrow> component_item \<Rightarrow> bool \<Rightarrow> repre list \<Rightarrow> asm_state
     \<Rightarrow> error + asm_state" where
  "thumbnail_loop C E I base has_reviews [] s = Inr s"
| "thumbnail_loop C E I base has_reviews (r # rs) s =
    ebind (thumbnail_step C E I base has_reviews r s) (thumbnail_loop C E I base has_reviews rs)"

section \<open>Review components\<close>

text \<open>
  \<^verbatim>\<open>if multiple_reviewable and extended_asset_name: item["asset_data"]["name"] = ...\<close>
  on the matched thumbnail item or its shadow, when there is one.
\<close>

definition rename_item :: "bool \<Rightarrow> string option \<Rightarrow> nat option \<Rightarrow> asm_state \<Rightarrow> asm_state" where
  "rename_item renaming new_name addr s =
    (case addr of
       Some a \<Rightarrow> if renaming then set_asset_name a (the new_name) s else s
     | None \<Rightarrow> s)"

text \<open>\<^verbatim>\<open>if item: component_list.append(copy.deepcopy(item))\<close>.\<close>

definition append_copy :: "nat option \<Rightarrow> asm_state \<Rightarrow> asm_state" where
  "append_copy addr s = (case addr of Some a \<Rightarrow> append_new (store s ! a) s | None \<Rightarrow> s)"

text \<open>
  The part of the loop body up to the two appends of the matched thumbnail: the match, the
  extended name, the renaming in place of the matched thumbnail item and of its shadow, and
  the deep copies appended to the component list.  The result is the state and the asset
  name of the review item.
\<close>

definition sync_thumbnail ::
  "config \<Rightarrow> component_item \<Rightarrow> bool \<Rightarrow> bool \<Rightarrow> nat \<Rightarrow> repre \<Rightarrow> asm_state
     \<Rightarrow> asm_state \<times> string" where
  "sync_thumbnail C base multiple_synced_thumbnails multiple_reviewable index r s =
    (let sync_thumbnail_data =
           snd (get_matching_thumbnail_item r (thumbnail_data_items s)
                  multiple_synced_thumbnails);
         sync_thumbnail_item = map_option td_item sync_thumbnail_data;
         sync_thumbnail_item_src =
           (case sync_thumbnail_data of None \<Rightarrow> None | Some d \<Rightarrow> src_component d);
         new_name = make_extended_component_name C base r index;
         renaming = (multiple_reviewable \<and> truthy_str new_name);
         s1 = rename_item renaming new_name sync_thumbnail_item
                (s\<lparr>extended_asset_name := new_name\<rparr>);
         s2 = rename_item renaming new_name sync_thumbnail_item_src s1;
         s3 = append_copy sync_thumbnail_item s2;
         s4 = append_copy sync_thumbnail_item_src s3
     in (s4, if renaming then the new_name else asset_name base))"

text \<open>Component name, metadata and thumbnail flag of a review item.\<close>

definition review_metadata ::
  "config \<Rightarrow> env \<Rightarrow> publish_instance \<Rightarrow> component_item \<Rightarrow> repre \<Rightarrow> string option
     \<Rightarrow> error + string \<times> (string \<times> pyval) list \<times> bool" where
  "review_metadata C E I base r repre_path =
    (if is_repre_video E r
     then ebind (prepare_video_component_metadata C E I r repre_path True)
            (\<lambda>metadata. Inr (''ftrackreview-mp4'', metadata, thumbnail base))
     else Inr (''ftrackreview-image'', prepare_image_component_metadata E r repre_path, True))"

definition review_component ::
  "component_item \<Rightarrow> string \<Rightarrow> string option \<Rightarrow> string \<times> (string \<times> pyval) list \<times> bool
     \<Rightarrow> component_item" where
  "review_component base review_name repre_path m =
    base\<lparr>asset_name := review_name,
         thumbnail := snd (snd m),
         component_path := repre_path,
         component_data := Some \<lparr>cd_name = fst m, cd_metadata = fst (snd m)\<rparr>,
         component_location_name := Some ftrack_server_location_name\<rparr>"

text \<open>The shadow of the review item, unless the representation is tagged for deletion.\<close>

definition review_src ::
  "config \<Rightarrow> env \<Rightarrow> publish_instance \<Rightarrow> repre \<Rightarrow> component_item \<Rightarrow> error + component_item list"
  where
  "review_src C E I r review_item =
    ebind (tags_or_default r) (\<lambda>tags.
      if ''delete'' \<notin> set tags
      then ebind (create_src_component C E I r review_item unmanaged_location_name)
             (\<lambda>src_comp. Inr [src_comp])
      else Inr [])"

text \<open>
  The copy named after the file, when the option is on; \<^verbatim>\<open>os.path.basename(None)\<close> is a
  \<^verbatim>\<open>TypeError\<close>.
\<close>

definition origin_name_component ::
  "config \<Rightarrow> env \<Rightarrow> string option \<Rightarrow> component_item \<Rightarrow> error + component_item list" where
  "origin_name_component C E repre_path review_item =
    (if upload_reviewable_with_origin_name C
     then (case repre_path of
             None \<Rightarrow> Inl TypeError
           | Some p \<Rightarrow>
               Inr [review_item\<lparr>component_data :=
                      map_option (\<lambda>cd. cd\<lparr>cd_name := fst (path_splitext E (path_basename E p))\<rparr>)
                        (component_data review_item)\<rparr>])
     else Inr [])"

text \<open>
  One run of the loop body.  The shadow is appended before the review item, the copy with
  the origin name after it.
\<close>

definition review_step ::
  "config \<Rightarrow> env \<Rightarrow> publish_instance \<Rightarrow> component_item \<Rightarrow> bool \<Rightarrow> bool \<Rightarrow> bool \<Rightarrow> nat
     \<Rightarrow> repre \<Rightarrow> asm_state \<Rightarrow> error + asm_state" where
  "review_step C E I base multiple_synced_thumbnails multiple_reviewable has_movie index r s =
    (if \<not> is_repre_video E r \<and> has_movie then Inr s
     else
       let synced =
             sync_thumbnail C base multiple_synced_thumbnails multiple_reviewable index r s;
           repre_path = get_publish_repre_path E r False
       in
       ebind (review_metadata C E I base r repre_path) (\<lambda>m.
       let review_item = review_component base (snd synced) repre_path m in
       ebind (review_src C E I r review_item) (\<lambda>src_comps.
       ebind (origin_name_component C E repre_path review_item) (\<lambda>origin_comps.
         Inr (append_all (src_comps @ [review_item] @ origin_comps) (fst synced))))))"

fun review_loop ::
  "config \<Rightarrow> env \<Rightarrow> publish_instance \<Rightarrow> component_item \<Rightarrow> bool \<Rightarrow> bool \<Rightarrow> bool \<Rightarrow> nat
     \<Rightarrow> repre list \<Rightarrow> asm_state \<Rightarrow> error + asm_state" where
  "review_loop C E I base ms mr hm index [] s = Inr s"
| "review_loop C E I base ms mr hm index (r # rs) s =
    ebind (review_step C E I base ms mr hm index r s)
      (review_loop C E I base ms mr hm (Suc index) rs)"

section \<open>Other components\<close>

definition other_component ::
  "config \<Rightarrow> component_item \<Rightarrow> bool \<Rightarrow> string option \<Rightarrow> repre \<Rightarrow> string option
     \<Rightarrow> (string \<times> pyval) list \<Rightarrow> component_item" where
  "other_component C base multiple_reviewable extended_name r published_path metadata =
    base\<lparr>asset_name :=
           (if multiple_reviewable \<and> \<not> keep_first_product_name_for_review C
               \<and> truthy_str extended_name
            then the extended_name else asset_name base),
         component_path := published_path,
         component_data := Some \<lparr>cd_name = r_name r, cd_metadata = metadata\<rparr>,
         component_location_name := Some unmanaged_location_name\<rparr>"

definition other_step ::
  "config \<Rightarrow> env \<Rightarrow> publish_instance \<Rightarrow> component_item \<Rightarrow> bool \<Rightarrow> repre \<Rightarrow> asm_state
     \<Rightarrow> error + asm_state" where
  "other_step C E I base multiple_reviewable r s =
    (let published_path = get_publish_repre_path E r True in
     if \<not> truthy_str published_path then Inr s
     else
       ebind (prepare_component_metadata C E I r published_path False) (\<lambda>metadata.
         Inr (append_new
                (other_component C base multiple_reviewable (extended_asset_name s) r
                   published_path metadata)
                s)))"

fun other_loop ::
  "config \<Rightarrow> env \<Rightarrow> publish_instance \<Rightarrow> component_item \<Rightarrow> bool \<Rightarrow> repre list \<Rightarrow> asm_state
     \<Rightarrow> error + asm_state" where
  "other_loop C E I base mr [] s = Inr s"
| "other_loop C E I base mr (r # rs) s =
    ebind (other_step C E I base mr r s) (other_loop C E I base mr rs)"

section \<open>The entry point\<close>

definition initial_state :: asm_state where
  "initial_state =
    \<lparr>store = [], component_list = [], thumbnail_data_items = [], thumbnail_item = None,
     extended_asset_name = None\<rparr>"

definition surviving_reviews :: "env \<Rightarrow> buckets \<Rightarrow> repre list" where
  "surviving_reviews E b =
    filter (\<lambda>r. \<not> has_movie_review b \<or> is_repre_video E r) (review_representations b)"

definition multiple_synced_thumbnails :: "buckets \<Rightarrow> bool" where
  "multiple_synced_thumbnails b \<longleftrightarrow>
    length (synced_multiple_output_names (review_representations b)
              (thumbnail_representations b)) > 1"

text \<open>\<^verbatim>\<open>if not review_representations and thumbnail_item: component_list.append(thumbnail_item)\<close>\<close>

definition thumbnail_fallback :: "repre list \<Rightarrow> asm_state \<Rightarrow> asm_state" where
  "thumbnail_fallback reviews s =
    (case thumbnail_item s of
       Some a \<Rightarrow> if reviews = [] then append_component a s else s
     | None \<Rightarrow> s)"

text \<open>
  The three loops over the classified representations, from the base item.  The result is
  the final state: the component list and the store its addresses point into.
\<close>

definition assemble ::
  "config \<Rightarrow> env \<Rightarrow> publish_instance \<Rightarrow> component_item \<Rightarrow> repre list \<Rightarrow> error + asm_state" where
  "assemble C E I base instance_repres =
    (let b = classify E instance_repres;
         reviews = surviving_reviews E b;
         multiple_reviewable = (length reviews > 1)
     in
     ebind (thumbnail_loop C E I base (review_representations b \<noteq> [])
              (thumbnail_representations b) initial_state) (\<lambda>s1.
     ebind (review_loop C E I base (multiple_synced_thumbnails b) multiple_reviewable
              (has_movie_review b) 0 reviews s1) (\<lambda>s2.
     other_loop C E I base multiple_reviewable (other_representations b)
       (thumbnail_fallback reviews s2))))"

definition make_base :: "config \<Rightarrow> env \<Rightarrow> publish_instance \<Rightarrow> error + component_item" where
  "make_base C E I =
    (case i_version I of
       None \<Rightarrow> Inl ValueError
     | Some version_number \<Rightarrow>
         ebind (require (i_productType I)) (\<lambda>product_type.
         ebind (get_asset_version_status_name C E I) (\<lambda>status_name.
         ebind (version_custom_attributes E I) (\<lambda>attrs.
         ebind (require (i_productName I)) (\<lambda>product_name.
           Inr (base_component_item (asset_type_of C I product_type) product_name
                  version_number
                  (if truthy_str (c_comment I) then the (c_comment I) else [])
                  status_name attrs))))))"

definition process_state :: "config \<Rightarrow> env \<Rightarrow> publish_instance \<Rightarrow> error + asm_state option" where
  "process_state C E I =
    (case i_representations I of
       None \<Rightarrow> Inr None
     | Some instance_repres \<Rightarrow>
         if instance_repres = [] then Inr None
         else ebind (make_base C E I) (\<lambda>base.
              ebind (assemble C E I base instance_repres) (\<lambda>s. Inr (Some s))))"

definition components_of :: "asm_state \<Rightarrow> component_item list" where
  "components_of s = map (\<lambda>a. store s ! a) (component_list s)"

text \<open>
  \<^verbatim>\<open>process\<close>: the value of \<^verbatim>\<open>instance.data["ftrackComponentsList"]\<close> it leaves, \<open>None\<close>
  when it returns without setting the key, or the exception it raises.
\<close>

definition process ::
  "config \<Rightarrow> env \<Rightarrow> publish_instance \<Rightarrow> error + component_item list option" where
  "process C E I = ebind (process_state C E I) (\<lambda>s. Inr (map_option components_of s))"


section \<open>Notions used to state the properties\<close>

text \<open>The addresses kept in the thumbnail data items.\<close>

definition binding_addrs :: "thumbnail_data list \<Rightarrow> nat set" where
  "binding_addrs ds = td_item ` set ds \<union> {b. \<exists>d \<in> set ds. src_component d = Some b}"

definition wf_state :: "asm_state \<Rightarrow> bool" where
  "wf_state s \<longleftrightarrow>
    (\<forall>a \<in> binding_addrs (thumbnail_data_items s). a < length (store s))
    \<and> (\<forall>a \<in> set (component_list s). a < length (store s))"

text \<open>An item without its asset name: two items that differ at most in the asset name.\<close>

definition strip_name :: "component_item \<Rightarrow> component_item" where
  "strip_name c = c\<lparr>asset_name := []\<rparr>"

text \<open>
  A later state of the same assembly: the thumbnail data items are the same, the store has
  only grown, an old cell differs at most in the asset name, and not at all unless a
  thumbnail data item holds its address, and the component list has grown by addresses
  of new cells.
\<close>

definition extends :: "asm_state \<Rightarrow> asm_state \<Rightarrow> bool" where
  "extends s s' \<longleftrightarrow>
    thumbnail_data_items s' = thumbnail_data_items s
    \<and> length (store s) \<le> length (store s')
    \<and> (\<forall>a < length (store s).
          strip_name (store s' ! a) = strip_name (store s ! a)
          \<and> (a \<notin> binding_addrs (thumbnail_data_items s) \<longrightarrow> store s' ! a = store s ! a))
    \<and> (\<exists>new. component_list s' = component_list s @ new
           \<and> (\<forall>a \<in> set new. length (store s) \<le> a \<and> a < length (store s')))"

text \<open>The variables of one run of the review loop.\<close>

definition matched_item :: "repre \<Rightarrow> bool \<Rightarrow> asm_state \<Rightarrow> nat option" where
  "matched_item r ms s =
    map_option td_item (snd (get_matching_thumbnail_item r (thumbnail_data_items s) ms))"

definition matched_src :: "repre \<Rightarrow> bool \<Rightarrow> asm_state \<Rightarrow> nat option" where
  "matched_src r ms s =
    (case snd (get_matching_thumbnail_item r (thumbnail_data_items s) ms) of
       None \<Rightarrow> None | Some d \<Rightarrow> src_component d)"

definition is_renaming :: "config \<Rightarrow> component_item \<Rightarrow> bool \<Rightarrow> nat \<Rightarrow> repre \<Rightarrow> bool" where
  "is_renaming C base mr idx r \<longleftrightarrow> mr \<and> truthy_str (make_extended_component_name C base r idx)"

definition review_name :: "config \<Rightarrow> component_item \<Rightarrow> bool \<Rightarrow> nat \<Rightarrow> repre \<Rightarrow> string" where
  "review_name C base mr idx r =
    (if is_renaming C base mr idx r then the (make_extended_component_name C base r idx)
     else asset_name base)"

definition renamed_state ::
  "config \<Rightarrow> component_item \<Rightarrow> bool \<Rightarrow> bool \<Rightarrow> nat \<Rightarrow> repre \<Rightarrow> asm_state \<Rightarrow> asm_state" where
  "renamed_state C base ms mr idx r s =
    rename_item (is_renaming C base mr idx r) (make_extended_component_name C base r idx)
      (matched_src r ms s)
      (rename_item (is_renaming C base mr idx r) (make_extended_component_name C base r idx)
         (matched_item r ms s)
         (s\<lparr>extended_asset_name := make_extended_component_name C base r idx\<rparr>))"

definition copies_of :: "nat option \<Rightarrow> asm_state \<Rightarrow> component_item list" where
  "copies_of addr s = (case addr of None \<Rightarrow> [] | Some a \<Rightarrow> [store s ! a])"

definition same_origin :: "component_item \<Rightarrow> component_item \<Rightarrow> bool" where
  "same_origin ci c \<longleftrightarrow> asset_name c = asset_name ci \<and> component_path c = component_path ci"

definition component_name :: "component_item \<Rightarrow> string" where
  "component_name c = (case component_data c of None \<Rightarrow> [] | Some cd \<Rightarrow> cd_name cd)"

definition component_metadata :: "component_item \<Rightarrow> (string \<times> pyval) list" where
  "component_metadata c = (case component_data c of None \<Rightarrow> [] | Some cd \<Rightarrow> cd_metadata cd)"

definition item_names :: "component_item \<Rightarrow> string \<times> string" where
  "item_names c = (asset_name c, component_name c)"

definition listed_names :: "error + component_item list option \<Rightarrow> (string \<times> string) list" where
  "listed_names res = (case res of Inr (Some cs) \<Rightarrow> map item_names cs | _ \<Rightarrow> [])"

text \<open>
  The component list of a state as it stands: each address with the asset name and the
  component name of the item found there; and the shadows the thumbnail data items keep.
\<close>

definition listed_cells :: "error + asm_state \<Rightarrow> (nat \<times> string \<times> string) list" where
  "listed_cells res =
    (case res of
       Inr s \<Rightarrow> map (\<lambda>a. (a, item_names (store s ! a))) (component_list s)
     | Inl e \<Rightarrow> [])"

definition kept_shadows :: "error + asm_state \<Rightarrow> nat option list" where
  "kept_shadows res =
    (case res of
       Inr s \<Rightarrow> map src_component (thumbnail_data_items s)
     | Inl e \<Rightarrow> [])"

section \<open>Keys of the labeled video fields\<close>

definition scalar_keys :: "string list" where
  "scalar_keys =
    [''fps'', ''frame_start'', ''frame_end'', ''duration'', ''width'', ''height'', ''codec'']"

section \<open>A concrete environment and concrete instances\<close>

text \<open>\<^verbatim>\<open>os.path.basename\<close> and \<^verbatim>\<open>os.path.splitext\<close> of \<^verbatim>\<open>posixpath\<close>.\<close>

definition posix_basename :: "string \<Rightarrow> string" where
  "posix_basename p = rev (takeWhile (\<lambda>c. c \<noteq> CHR ''/'') (rev p))"

definition posix_splitext :: "string \<Rightarrow> string \<times> string" where
  "posix_splitext p =
    (let after_dot = rev (takeWhile (\<lambda>c. c \<noteq> CHR ''.'') (rev p));
         root = take (length p - length after_dot - 1) p;
         stem = rev (takeWhile (\<lambda>c. c \<noteq> CHR ''/'') (rev root))
     in if CHR ''.'' \<in> set p \<and> CHR ''/'' \<notin> set after_dot \<and> (\<exists>c \<in> set stem. c \<noteq> CHR ''.'')
        then (root, drop (length root) p) else (p, []))"

text \<open>
  An environment in which every representation is published under \<^verbatim>\<open>/pub\<close> and the
  media probe fails on every file.
\<close>

definition example_env :: env where
  "example_env =
    \<lparr>get_publish_repre_path = (\<lambda>r only_published. Some (''/pub/'' @ r_name r @ ''.'' @ r_ext r)),
     get_ffprobe_streams = (\<lambda>p. None),
     convert_ffprobe_fps_to_float = (\<lambda>s. None),
     float_of_str = (\<lambda>s. None),
     float_product = (\<lambda>d f. d * f),
     VIDEO_EXTENSIONS = [''.mp4'', ''.mov''],
     IMAGE_EXTENSIONS = [''.jpg'', ''.png'', ''.exr''],
     get_ayon_launcher_version = ''1.0.0'',
     ayon_ftrack_version = ''1.2.0'',
     CUST_ATTR_KEY_SERVER_ID = ''ayon_id'',
     CUST_ATTR_KEY_SERVER_PATH = ''ayon_path'',
     filter_profiles = (\<lambda>profiles criteria. None),
     path_splitext = posix_splitext,
     path_basename = posix_basename\<rparr>"

definition example_config :: "bool \<Rightarrow> string list \<Rightarrow> config" where
  "example_config keep_first metadata_keys =
    \<lparr>product_type_mapping = [(''render'', ''render''), (''review'', ''mov'')],
     keep_first_product_name_for_review = keep_first,
     upload_reviewable_with_origin_name = False,
     asset_versions_status_profiles = [],
     additional_metadata_keys = metadata_keys\<rparr>"

definition example_repre :: "string \<Rightarrow> string \<Rightarrow> string list \<Rightarrow> string option \<Rightarrow> repre" where
  "example_repre n e ts out =
    \<lparr>r_name = n, r_ext = e, r_tags = TagsList ts, r_thumbnail = False, r_outputName = out,
     r_fps = PNone, r_width = None, r_height = None,
     r_frameStartFtrack = None, r_frameEndFtrack = None\<rparr>"

definition example_instance :: "repre list option \<Rightarrow> publish_instance" where
  "example_instance rs =
    \<lparr>i_representations = rs, i_version = Some 3, i_productType = Some ''render'',
     i_ftrackFamily = None, i_productName = Some ''renderMain'',
     i_folderPath = Some ''/shots/sh010'', i_versionEntity = None, i_fps = PNone,
     i_frameStart = Some 1001, i_frameEnd = Some 1010, i_anatomy_task_type = None,
     c_comment = None, c_fps = Some (PFloat 25), c_hostName = Some ''nuke''\<rparr>"

definition review_main :: repre where
  "review_main = example_repre ''h264'' ''mp4'' [''ftrackreview''] (Some ''main'')"

definition thumbnail_main :: repre where
  "thumbnail_main =
    (example_repre ''thumb'' ''jpg'' [''thumbnail''] (Some ''main''))
      \<lparr>r_width := Some 1920, r_height := Some 1080\<rparr>"

definition review_a :: repre where
  "review_a = example_repre ''h264_a'' ''mp4'' [''ftrackreview''] (Some ''a'')"

definition review_b :: repre where
  "review_b = example_repre ''h264_b'' ''mp4'' [''ftrackreview''] (Some ''b'')"

definition thumbnail_a :: repre where
  "thumbnail_a =
    (example_repre ''thumb_a'' ''jpg'' [''thumbnail''] (Some ''a''))
      \<lparr>r_width := Some 1920, r_height := Some 1080\<rparr>"

definition thumbnail_b :: repre where
  "thumbnail_b =
    (example_repre ''thumb_b'' ''jpg'' [''thumbnail''] (Some ''b''))
      \<lparr>r_width := Some 1920, r_height := Some 1080\<rparr>"

text \<open>Two video reviews with a thumbnail each, and two video reviews with one thumbnail.\<close>

definition two_synced :: "repre list" where
  "two_synced = [review_a, review_b, thumbnail_a, thumbnail_b]"

definition one_thumbnail_two_reviews :: "repre list" where
  "one_thumbnail_two_reviews = [review_a, review_b, thumbnail_main]"

definition example_base :: component_item where
  "example_base = base_component_item ''render'' ''renderMain'' 3 [] None []"

definition thumb_data :: "string option \<Rightarrow> nat \<Rightarrow> thumbnail_data" where
  "thumb_data k a =
    \<lparr>sync_key = k, representation = thumbnail_main, td_item = a, src_component = None\<rparr>"

section \<open>The error monad\<close>

lemma ebind_Inr [simp]: "ebind (Inr x) f = f x"
  by (simp add: ebind_def)

lemma ebind_Inl [simp]: "ebind (Inl e) f = Inl e"
  by (simp add: ebind_def)

lemma ebind_eq_Inr: "(ebind m f = Inr y) = (\<exists>x. m = Inr x \<and> f x = Inr y)"
  by (cases m) simp_all

section \<open>The thumbnail matcher\<close>

lemma find_None_iff_all: "(find P xs = None) = (\<forall>x \<in> set xs. \<not> P x)"
  by (induction xs) auto

text \<open>
  Claim C8.  The matcher returns \<^verbatim>\<open>None\<close> exactly when there is no thumbnail data item.
  Without multiple synced thumbnails it returns the first item for any review, with no
  warning.  With multiple synced thumbnails, when no item has the review's output name as
  its sync key nor a sync key among the review's tags, it logs the warning and still returns
  the first item.  With a single item, every review gets that item in either mode.
\<close>

theorem matcher_first_or_synced:
  "(snd (get_matching_thumbnail_item r items ms) = None \<longleftrightarrow> items = [])
   \<and> (\<not> ms \<longrightarrow> get_matching_thumbnail_item r (t # ts) ms = ([], Some t))
   \<and> (ms \<longrightarrow> (\<forall>d \<in> set (t # ts). sync_key d \<noteq> r_outputName r
                                     \<and> \<not> in_tags (sync_key d) (tags_of r))
          \<longrightarrow> get_matching_thumbnail_item r (t # ts) ms
                = ([NoMatchingThumbnail (r_outputName r)], Some t))
   \<and> snd (get_matching_thumbnail_item r [t] ms) = Some t"
proof (intro conjI impI)
  show "snd (get_matching_thumbnail_item r items ms) = None \<longleftrightarrow> items = []"
    by (cases items) (auto simp: get_matching_thumbnail_item_def Let_def split: option.splits)
next
  assume "\<not> ms"
  then show "get_matching_thumbnail_item r (t # ts) ms = ([], Some t)"
    by (simp add: get_matching_thumbnail_item_def)
next
  assume ms and none: "\<forall>d \<in> set (t # ts). sync_key d \<noteq> r_outputName r
                                     \<and> \<not> in_tags (sync_key d) (tags_of r)"
  have "find (\<lambda>d. sync_key d = r_outputName r \<or> in_tags (sync_key d) (tags_of r)) (t # ts)
        = None"
    using none unfolding find_None_iff_all by blast
  with \<open>ms\<close> show "get_matching_thumbnail_item r (t # ts) ms
                = ([NoMatchingThumbnail (r_outputName r)], Some t)"
    by (simp add: get_matching_thumbnail_item_def Let_def)
next
  show "snd (get_matching_thumbnail_item r [t] ms) = Some t"
    by (auto simp: get_matching_thumbnail_item_def Let_def split: option.splits)
qed



theorem matcher_first_or_synced_witness:
  "sync_key (thumb_data (Some ''a'') 0) \<noteq> r_outputName review_main
   \<and> sync_key (thumb_data (Some ''b'') 2) \<noteq> r_outputName review_main
   \<and> \<not> in_tags (sync_key (thumb_data (Some ''a'') 0)) (tags_of review_main)
   \<and> \<not> in_tags (sync_key (thumb_data (Some ''b'') 2)) (tags_of review_main)
   \<and> get_matching_thumbnail_item review_main
         [thumb_data (Some ''a'') 0, thumb_data (Some ''b'') 2] False
       = ([], Some (thumb_data (Some ''a'') 0))
   \<and> get_matching_thumbnail_item review_main
         [thumb_data (Some ''a'') 0, thumb_data (Some ''b'') 2] True
       = ([NoMatchingThumbnail (Some ''main'')], Some (thumb_data (Some ''a'') 0))"
proof -
  have h: "\<forall>d \<in> set [thumb_data (Some ''a'') 0, thumb_data (Some ''b'') 2].
         sync_key d \<noteq> r_outputName review_main \<and> \<not> in_tags (sync_key d) (tags_of review_main)"
    by (simp add: thumb_data_def review_main_def example_repre_def in_tags_def tags_of_def)
  have n: "r_outputName review_main = Some ''main''"
    by (simp add: review_main_def example_repre_def)
  from h n show ?thesis
    using matcher_first_or_synced
            [of review_main "[]" False "thumb_data (Some ''a'') 0" "[thumb_data (Some ''b'') 2]"]
          matcher_first_or_synced
            [of review_main "[]" True "thumb_data (Some ''a'') 0" "[thumb_data (Some ''b'') 2]"]
    by simp
qed

section \<open>Labels and lookups in a metadata map\<close>

lemma label_of_table: "label_of k = Inr l \<Longrightarrow> (k, l) \<in> set metadata_keys_to_label"
  by (auto simp: label_of_def require_def split: option.splits dest: map_of_SomeD)

lemma label_of_inj:
  assumes "label_of k = Inr l" "label_of k' = Inr l"
  shows "k = k'"
  using label_of_table [OF assms(1)] label_of_table [OF assms(2)]
  by (auto simp: metadata_keys_to_label_def)

lemma label_of_not_ftr_meta: "label_of k \<noteq> Inr ''ftr_meta''"
  by (auto dest!: label_of_table simp: metadata_keys_to_label_def)

lemma label_of_scalar: "k \<in> set scalar_keys \<Longrightarrow> \<exists>l. label_of k = Inr l"
  by (auto simp: scalar_keys_def label_of_def require_def metadata_keys_to_label_def)

lemma label_of_video_fields:
  "(k, v) \<in> set (video_fields fps fs fe si) \<Longrightarrow> \<exists>l. label_of k = Inr l"
  by (auto simp: video_fields_def label_of_def require_def metadata_keys_to_label_def)

lemma add_labeled_lookup:
  assumes "add_labeled C kv md0 = Inr md" "map_of md l = Some v"
  shows "map_of md0 l = Some v
         \<or> (kv = (fst kv, v) \<and> label_of (fst kv) = Inr l \<and> truthy v
            \<and> fst kv \<in> set (additional_metadata_keys C))"
  using assms
  by (auto simp: add_labeled_def ebind_eq_Inr update_conv' split: if_splits)

lemma add_all_labeled_lookup:
  "add_all_labeled C kvs md0 = Inr md \<Longrightarrow> map_of md l = Some v \<Longrightarrow>
     map_of md0 l = Some v
     \<or> (\<exists>k. (k, v) \<in> set kvs \<and> label_of k = Inr l \<and> truthy v
            \<and> k \<in> set (additional_metadata_keys C))"
proof (induction kvs arbitrary: md0)
  case Nil
  then show ?case by simp
next
  case (Cons kv kvs)
  from Cons.prems(1) obtain md1 where
    step: "add_labeled C kv md0 = Inr md1" and rest: "add_all_labeled C kvs md1 = Inr md"
    by (auto simp: ebind_eq_Inr)
  from Cons.IH [OF rest Cons.prems(2)] show ?case
  proof
    assume "map_of md1 l = Some v"
    from add_labeled_lookup [OF step this] show ?thesis
      by (metis list.set_intros(1))
  next
    assume "\<exists>k. (k, v) \<in> set kvs \<and> label_of k = Inr l \<and> truthy v
            \<and> k \<in> set (additional_metadata_keys C)"
    then show ?thesis by auto
  qed
qed

lemma add_version_lookup:
  assumes "add_version C kv md0 = Inr md" "map_of md l = Some v"
  shows "map_of md0 l = Some v \<or> label_of (fst kv) = Inr l"
  using assms
  by (auto simp: add_version_def ebind_eq_Inr update_conv' split: if_splits)

lemma version_metadata_lookup:
  assumes "version_metadata C E = Inr md" "map_of md l = Some v"
  shows "label_of ''ayon_ftrack_version'' = Inr l \<or> label_of ''ayon_launcher_version'' = Inr l"
proof -
  from assms(1) obtain md1 where
    a: "add_version C (''ayon_ftrack_version'', PStr (ayon_ftrack_version E)) [] = Inr md1"
    and b: "add_version C (''ayon_launcher_version'', PStr (get_ayon_launcher_version E)) md1
            = Inr md"
    by (auto simp: version_metadata_def ebind_eq_Inr)
  from add_version_lookup [OF b assms(2)] show ?thesis
  proof
    assume "map_of md1 l = Some v"
    from add_version_lookup [OF a this] show ?thesis by simp
  qed simp
qed

lemma version_metadata_total: "\<exists>md. version_metadata C E = Inr md"
  by (simp add: version_metadata_def add_version_def label_of_def require_def
        metadata_keys_to_label_def)

lemma video_metadata_tail_cases:
  assumes "video_metadata_tail C E I r is_review vss md0 = Inr md"
  shows "\<exists>md1 fps fs fe si payload.
           video_values E I r vss = Inr (si, fps, fs, fe)
           \<and> add_all_labeled C (video_fields fps fs fe si) md0 = Inr md1
           \<and> video_ftr_meta E is_review fps si ((fe - fs) + 1) = Inr payload
           \<and> md = AList.update ''ftr_meta'' payload md1"
  using assms
  by (auto simp: video_metadata_tail_def ebind_eq_Inr split: prod.splits)

lemma video_values_frame_range:
  "video_values E I r vss = Inr (si, fps, fs, fe) \<Longrightarrow> frame_range I r = Inr (fs, fe)"
  by (auto simp: video_values_def ebind_eq_Inr)

lemma prepare_video_cases:
  assumes "prepare_video_component_metadata C E I r p is_review = Inr md"
  shows "version_metadata C E = Inr md
         \<or> (\<exists>md0. version_metadata C E = Inr md0
               \<and> video_metadata_tail C E I r is_review
                    (filter (\<lambda>s. codec_type s = ''video'') (probe_streams E p)) md0 = Inr md)"
  using assms
  by (auto simp: prepare_video_component_metadata_def ebind_eq_Inr Let_def split: if_splits)

text \<open>
  Claim C10.  In the metadata map of a video, whatever is stored under the label of one of
  the scalar keys (fps, frame start, frame end, duration, width, height, codec) is the
  effective value of that field, that value is truthy, and the key is in the configured
  list.  The effective values are the ones the function settles from the video streams of
  the probed file, the representation and the instance (\<open>video_values\<close>), listed by
  \<open>video_fields\<close>.  So a field whose effective value is zero, empty or \<^verbatim>\<open>None\<close> is
  never stored, listed or not.
\<close>

theorem video_metadata_truthy_only:
  assumes res: "prepare_video_component_metadata C E I r p is_review = Inr md"
    and key: "key \<in> set scalar_keys"
    and lab: "label_of key = Inr label"
    and stored: "map_of md label = Some v"
  shows "truthy v \<and> key \<in> set (additional_metadata_keys C)
         \<and> (\<exists>si fps fs fe.
               video_values E I r
                 (filter (\<lambda>s. codec_type s = ''video'') (probe_streams E p))
                 = Inr (si, fps, fs, fe)
               \<and> frame_range I r = Inr (fs, fe)
               \<and> (key, v) \<in> set (video_fields fps fs fe si)
               \<and> map_of (video_fields fps fs fe si) key = Some v)"
proof -
  let ?vss = "filter (\<lambda>s. codec_type s = ''video'') (probe_streams E p)"
  have not_version: "label_of ''ayon_ftrack_version'' \<noteq> Inr label"
       "label_of ''ayon_launcher_version'' \<noteq> Inr label"
    using key label_of_inj [OF lab] by (auto simp: scalar_keys_def)
  have not_ftr: "label \<noteq> ''ftr_meta''"
    using lab label_of_not_ftr_meta by auto
  from prepare_video_cases [OF res] show ?thesis
  proof
    assume "version_metadata C E = Inr md"
    from version_metadata_lookup [OF this stored] not_version show ?thesis by simp
  next
    assume "\<exists>md0. version_metadata C E = Inr md0
               \<and> video_metadata_tail C E I r is_review ?vss md0 = Inr md"
    then obtain md0 where v: "version_metadata C E = Inr md0"
      and tail: "video_metadata_tail C E I r is_review ?vss md0 = Inr md"
      by blast
    from video_metadata_tail_cases [OF tail] obtain md1 fps fs fe si payload where
      vals: "video_values E I r ?vss = Inr (si, fps, fs, fe)"
      and all: "add_all_labeled C (video_fields fps fs fe si) md0 = Inr md1"
      and md: "md = AList.update ''ftr_meta'' payload md1"
      by blast
    note fr = video_values_frame_range [OF vals]
    from stored md not_ftr have s1: "map_of md1 label = Some v"
      by (simp add: update_conv')
    from add_all_labeled_lookup [OF all s1] show ?thesis
    proof
      assume "map_of md0 label = Some v"
      from version_metadata_lookup [OF v this] not_version show ?thesis by simp
    next
      assume "\<exists>k. (k, v) \<in> set (video_fields fps fs fe si) \<and> label_of k = Inr label
                \<and> truthy v \<and> k \<in> set (additional_metadata_keys C)"
      then obtain k where k: "(k, v) \<in> set (video_fields fps fs fe si)"
        "label_of k = Inr label" "truthy v" "k \<in> set (additional_metadata_keys C)"
        by blast
      from label_of_inj [OF k(2) lab] have kk: "k = key" .
      from k(1) kk have "map_of (video_fields fps fs fe si) key = Some v"
        by (auto simp: video_fields_def)
      with k kk fr vals show ?thesis by blast
    qed
  qed
qed

theorem video_metadata_truthy_only_witness:
  "prepare_video_component_metadata (example_config True scalar_keys) example_env
     (example_instance None) review_main (Some ''/pub/h264.exr'') False
     = Inr [(''FPS'', PFloat 25), (''Frame start'', PInt 1001), (''Frame end'', PInt 1010),
            (''Duration'', PInt 10), (''ftr_meta'', PDump [(''frameRate'', PFloat 25)])]
   \<and> ''duration'' \<in> set scalar_keys
   \<and> label_of ''duration'' = Inr ''Duration''
   \<and> truthy (PInt 10)
   \<and> ''duration'' \<in> set (additional_metadata_keys (example_config True scalar_keys))
   \<and> video_values example_env (example_instance None) review_main
        (filter (\<lambda>s. codec_type s = ''video'')
           (probe_streams example_env (Some ''/pub/h264.exr'')))
       = Inr (initial_stream_info, PFloat 25, 1001, 1010)
   \<and> map_of (video_fields (PFloat 25) 1001 1010 initial_stream_info) ''duration''
       = Some (PInt 10)"
proof -
  have run: "prepare_video_component_metadata (example_config True scalar_keys) example_env
     (example_instance None) review_main (Some ''/pub/h264.exr'') False
     = Inr [(''FPS'', PFloat 25), (''Frame start'', PInt 1001), (''Frame end'', PInt 1010),
            (''Duration'', PInt 10), (''ftr_meta'', PDump [(''frameRate'', PFloat 25)])]"
    by (simp add: prepare_video_component_metadata_def version_metadata_def add_version_def
      example_config_def scalar_keys_def example_env_def path_extension_def posix_splitext_def
      probe_streams_def Let_def video_metadata_tail_def video_values_def initial_stream_info_def
      instance_fps_def repre_fps_def frame_range_def example_instance_def review_main_def
      example_repre_def require_def py_or_def opt_float_def video_fields_def add_labeled_def
      label_of_def metadata_keys_to_label_def opt_int_def opt_str_def video_ftr_meta_def)
  have key: "''duration'' \<in> set scalar_keys"
    by (simp add: scalar_keys_def)
  have lab: "label_of ''duration'' = Inr ''Duration''"
    by (simp add: label_of_def require_def metadata_keys_to_label_def)
  have stored: "map_of [(''FPS'', PFloat 25), (''Frame start'', PInt 1001),
                  (''Frame end'', PInt 1010), (''Duration'', PInt 10),
                  (''ftr_meta'', PDump [(''frameRate'', PFloat 25)])] ''Duration''
                = Some (PInt 10)"
    by simp
  have vals: "video_values example_env (example_instance None) review_main
        (filter (\<lambda>s. codec_type s = ''video'')
           (probe_streams example_env (Some ''/pub/h264.exr'')))
       = Inr (initial_stream_info, PFloat 25, 1001, 1010)"
    by (simp add: video_values_def probe_streams_def example_env_def initial_stream_info_def
      instance_fps_def repre_fps_def frame_range_def example_instance_def review_main_def
      example_repre_def require_def py_or_def opt_float_def)
  have field: "map_of (video_fields (PFloat 25) 1001 1010 initial_stream_info) ''duration''
       = Some (PInt 10)"
    by (simp add: video_fields_def)
  from video_metadata_truthy_only [OF run key lab stored] run key lab vals field
  show ?thesis
    by blast
qed

section \<open>Video metadata when the probe fails\<close>

lemma version_metadata_no_fields:
  assumes "version_metadata C E = Inr md"
  shows "map_of md ''Duration'' = None \<and> map_of md ''FPS'' = None
         \<and> map_of md ''Codec'' = None \<and> map_of md ''ftr_meta'' = None"
  using assms
  by (auto simp: version_metadata_def add_version_def label_of_def require_def
        metadata_keys_to_label_def update_conv' split: if_splits)

lemma video_values_probe_failure:
  assumes "instance_fps I = Inr ifps" "repre_fps E r = Inr rfps" "frame_range I r = Inr (fs, fe)"
  shows "video_values E I r [] = Inr (initial_stream_info, py_or rfps ifps, fs, fe)"
  using assms
  by (simp add: video_values_def initial_stream_info_def opt_float_def py_or_def)

lemma labeled_fields_probe_failure:
  assumes "map_of md0 ''Duration'' = None" "map_of md0 ''FPS'' = None"
    "map_of md0 ''Codec'' = None"
  shows "\<exists>md1. add_all_labeled C (video_fields fps 1001 1010 initial_stream_info) md0 = Inr md1
     \<and> map_of md1 ''Duration''
         = (if ''duration'' \<in> set (additional_metadata_keys C) then Some (PInt 10) else None)
     \<and> map_of md1 ''Codec'' = None
     \<and> map_of md1 ''FPS''
         = (if truthy fps \<and> ''fps'' \<in> set (additional_metadata_keys C) then Some fps else None)"
  using assms
  by (simp add: video_fields_def initial_stream_info_def add_labeled_def label_of_def
        require_def metadata_keys_to_label_def opt_int_def opt_str_def update_conv')


text \<open>
  Claim C3, as the code has it.  When the probe of a video file fails and the instance
  declares the frames 1001 to 1010: for a path whose extension is not \<^verbatim>\<open>.exr\<close> the
  function returns right after the version entries, so the map has no duration, fps or
  codec entry and no \<^verbatim>\<open>ftr_meta\<close>; for an \<^verbatim>\<open>.exr\<close> path the map of a review has the
  duration 10 when the duration key is configured, no codec entry, an fps entry only from
  the declared fps, and an \<^verbatim>\<open>ftr_meta\<close> payload with frameIn 0 and frameOut 10.
\<close>

theorem video_metadata_probe_failure:
  assumes probe: "get_ffprobe_streams E p = None"
    and frames: "i_frameStart I = Some 1001" "i_frameEnd I = Some 1010"
    and declared: "r_frameStartFtrack r = None \<or> r_frameEndFtrack r = None"
  shows "(snd (path_splitext E p) \<noteq> ''.exr'' \<longrightarrow>
           (\<exists>md. prepare_video_component_metadata C E I r (Some p) is_review = Inr md
              \<and> version_metadata C E = Inr md
              \<and> map_of md ''Duration'' = None \<and> map_of md ''FPS'' = None
              \<and> map_of md ''Codec'' = None \<and> map_of md ''ftr_meta'' = None))
       \<and> (snd (path_splitext E p) = ''.exr'' \<longrightarrow> instance_fps I = Inr ifps
            \<longrightarrow> repre_fps E r = Inr rfps \<longrightarrow> py_float E (py_or rfps ifps) = Inr rate \<longrightarrow>
           (\<exists>md. prepare_video_component_metadata C E I r (Some p) True = Inr md
              \<and> map_of md ''Duration''
                  = (if ''duration'' \<in> set (additional_metadata_keys C)
                     then Some (PInt 10) else None)
              \<and> map_of md ''Codec'' = None
              \<and> map_of md ''FPS''
                  = (if truthy (py_or rfps ifps) \<and> ''fps'' \<in> set (additional_metadata_keys C)
                     then Some (py_or rfps ifps) else None)
              \<and> map_of md ''ftr_meta''
                  = Some (PDump [(''frameIn'', PInt 0), (''frameOut'', PInt 10),
                                 (''frameRate'', PFloat rate)])))"
proof (intro conjI impI)
  obtain md0 where v: "version_metadata C E = Inr md0"
    using version_metadata_total by blast
  have streams: "filter (\<lambda>s. codec_type s = ''video'') (probe_streams E (Some p)) = []"
    using probe by (simp add: probe_streams_def)
  {
    assume "snd (path_splitext E p) \<noteq> ''.exr''"
    then have "prepare_video_component_metadata C E I r (Some p) is_review = Inr md0"
      using v streams by (simp add: prepare_video_component_metadata_def path_extension_def)
    with v version_metadata_no_fields [OF v]
    show "\<exists>md. prepare_video_component_metadata C E I r (Some p) is_review = Inr md
              \<and> version_metadata C E = Inr md
              \<and> map_of md ''Duration'' = None \<and> map_of md ''FPS'' = None
              \<and> map_of md ''Codec'' = None \<and> map_of md ''ftr_meta'' = None"
      by blast
  }
  {
    assume exr: "snd (path_splitext E p) = ''.exr''"
      and fps: "instance_fps I = Inr ifps" "repre_fps E r = Inr rfps"
      and rate: "py_float E (py_or rfps ifps) = Inr rate"
    have range: "frame_range I r = Inr (1001, 1010)"
      using frames declared by (auto simp: frame_range_def require_def split: option.splits)
    note vals = video_values_probe_failure [OF fps range]
    from version_metadata_no_fields [OF v]
    obtain md1 where
      all: "add_all_labeled C (video_fields (py_or rfps ifps) 1001 1010 initial_stream_info) md0
            = Inr md1"
      and look: "map_of md1 ''Duration''
            = (if ''duration'' \<in> set (additional_metadata_keys C) then Some (PInt 10) else None)"
          "map_of md1 ''Codec'' = None"
          "map_of md1 ''FPS''
            = (if truthy (py_or rfps ifps) \<and> ''fps'' \<in> set (additional_metadata_keys C)
               then Some (py_or rfps ifps) else None)"
      using labeled_fields_probe_failure [of md0 C "py_or rfps ifps"] by blast
    have payload: "video_ftr_meta E True (py_or rfps ifps) initial_stream_info ((1010 - 1001) + 1)
          = Inr (PDump [(''frameIn'', PInt 0), (''frameOut'', PInt 10),
                        (''frameRate'', PFloat rate)])"
      using rate by (simp add: video_ftr_meta_def initial_stream_info_def opt_float_def)
    have "prepare_video_component_metadata C E I r (Some p) True
          = Inr (AList.update ''ftr_meta''
                   (PDump [(''frameIn'', PInt 0), (''frameOut'', PInt 10),
                           (''frameRate'', PFloat rate)]) md1)"
      using v streams exr vals all payload
      by (simp add: prepare_video_component_metadata_def path_extension_def
            video_metadata_tail_def)
    with look
    show "\<exists>md. prepare_video_component_metadata C E I r (Some p) True = Inr md
              \<and> map_of md ''Duration''
                  = (if ''duration'' \<in> set (additional_metadata_keys C)
                     then Some (PInt 10) else None)
              \<and> map_of md ''Codec'' = None
              \<and> map_of md ''FPS''
                  = (if truthy (py_or rfps ifps) \<and> ''fps'' \<in> set (additional_metadata_keys C)
                     then Some (py_or rfps ifps) else None)
              \<and> map_of md ''ftr_meta''
                  = Some (PDump [(''frameIn'', PInt 0), (''frameOut'', PInt 10),
                                 (''frameRate'', PFloat rate)])"
      by (simp add: update_conv')
  }
qed

theorem video_metadata_probe_failure_counterexample:
  "prepare_video_component_metadata (example_config True scalar_keys) example_env
     (example_instance None) review_main (Some ''/pub/h264.mp4'') True = Inr []"
  by (simp add: prepare_video_component_metadata_def version_metadata_def add_version_def
      example_config_def scalar_keys_def example_env_def path_extension_def posix_splitext_def
      probe_streams_def Let_def)

theorem video_metadata_probe_failure_witness:
  "get_ffprobe_streams example_env ''/pub/h264.exr'' = None
   \<and> i_frameStart (example_instance None) = Some 1001
   \<and> i_frameEnd (example_instance None) = Some 1010
   \<and> r_frameStartFtrack review_main = None
   \<and> snd (path_splitext example_env ''/pub/h264.mp4'') \<noteq> ''.exr''
   \<and> snd (path_splitext example_env ''/pub/h264.exr'') = ''.exr''
   \<and> instance_fps (example_instance None) = Inr (PFloat 25)
   \<and> repre_fps example_env review_main = Inr PNone
   \<and> py_float example_env (py_or PNone (PFloat 25)) = Inr 25
   \<and> (\<exists>md. prepare_video_component_metadata (example_config True scalar_keys) example_env
              (example_instance None) review_main (Some ''/pub/h264.mp4'') True = Inr md
         \<and> map_of md ''Duration'' = None \<and> map_of md ''ftr_meta'' = None)
   \<and> (\<exists>md. prepare_video_component_metadata (example_config True scalar_keys) example_env
              (example_instance None) review_main (Some ''/pub/h264.exr'') True = Inr md
         \<and> map_of md ''Duration'' = Some (PInt 10)
         \<and> map_of md ''ftr_meta''
             = Some (PDump [(''frameIn'', PInt 0), (''frameOut'', PInt 10),
                            (''frameRate'', PFloat 25)]))"
proof -
  have h1: "get_ffprobe_streams example_env ''/pub/h264.exr'' = None"
       "get_ffprobe_streams example_env ''/pub/h264.mp4'' = None"
    by (simp_all add: example_env_def)
  have h2: "i_frameStart (example_instance None) = Some 1001"
           "i_frameEnd (example_instance None) = Some 1010"
    by (simp_all add: example_instance_def)
  have h3: "r_frameStartFtrack review_main = None"
    by (simp add: review_main_def example_repre_def)
  have h4: "snd (path_splitext example_env ''/pub/h264.mp4'') \<noteq> ''.exr''"
           "snd (path_splitext example_env ''/pub/h264.exr'') = ''.exr''"
    by (simp_all add: example_env_def posix_splitext_def)
  have h5: "instance_fps (example_instance None) = Inr (PFloat 25)"
    by (simp add: instance_fps_def example_instance_def require_def)
  have h6: "repre_fps example_env review_main = Inr PNone"
    by (simp add: repre_fps_def review_main_def example_repre_def)
  have h7: "py_float example_env (py_or PNone (PFloat 25)) = Inr 25"
    by (simp add: py_float_def py_or_def)
  have keys: "''duration'' \<in> set (additional_metadata_keys (example_config True scalar_keys))"
    by (simp add: example_config_def scalar_keys_def)
  from video_metadata_probe_failure
         [of example_env "''/pub/h264.mp4''" "example_instance None" review_main
            "example_config True scalar_keys" True, OF h1(2) h2 disjI1 [OF h3]] h4(1)
  have a: "\<exists>md. prepare_video_component_metadata (example_config True scalar_keys) example_env
              (example_instance None) review_main (Some ''/pub/h264.mp4'') True = Inr md
         \<and> map_of md ''Duration'' = None \<and> map_of md ''ftr_meta'' = None"
    by blast
  from video_metadata_probe_failure
         [of example_env "''/pub/h264.exr''" "example_instance None" review_main
            "example_config True scalar_keys" True "PFloat 25" PNone 25,
          OF h1(1) h2 disjI1 [OF h3]] h4(2) h5 h6 h7 keys
  have b: "\<exists>md. prepare_video_component_metadata (example_config True scalar_keys) example_env
              (example_instance None) review_main (Some ''/pub/h264.exr'') True = Inr md
         \<and> map_of md ''Duration'' = Some (PInt 10)
         \<and> map_of md ''ftr_meta''
             = Some (PDump [(''frameIn'', PInt 0), (''frameOut'', PInt 10),
                            (''frameRate'', PFloat 25)])"
    by auto
  from h1 h2 h3 h4 h5 h6 h7 a b show ?thesis by blast
qed

section \<open>The store during the assembly\<close>

subsection \<open>Appending\<close>

lemma append_new_fields [simp]:
  "store (append_new c s) = store s @ [c]"
  "component_list (append_new c s) = component_list s @ [length (store s)]"
  "thumbnail_data_items (append_new c s) = thumbnail_data_items s"
  "thumbnail_item (append_new c s) = thumbnail_item s"
  "extended_asset_name (append_new c s) = extended_asset_name s"
  by (simp_all add: append_new_def alloc_def append_component_def)

lemma append_all_Nil [simp]: "append_all [] s = s"
  by (simp add: append_all_def)

lemma append_all_Cons [simp]: "append_all (c # cs) s = append_all cs (append_new c s)"
  by (simp add: append_all_def)

lemma append_all_append: "append_all (xs @ ys) s = append_all ys (append_all xs s)"
  by (simp add: append_all_def)

lemma append_all_store [simp]: "store (append_all cs s) = store s @ cs"
  by (induction cs arbitrary: s) simp_all

lemma append_all_list [simp]:
  "component_list (append_all cs s)
   = component_list s @ [length (store s)..<length (store s) + length cs]"
proof (induction cs arbitrary: s)
  case Nil
  then show ?case by simp
next
  case (Cons c cs)
  have "[length (store s)..<length (store s) + Suc (length cs)]
        = length (store s) # [Suc (length (store s))..<Suc (length (store s)) + length cs]"
    by (subst upt_conv_Cons) simp_all
  then show ?case by (simp add: Cons.IH del: upt_Suc)
qed

lemma append_all_others [simp]:
  "thumbnail_data_items (append_all cs s) = thumbnail_data_items s"
  "thumbnail_item (append_all cs s) = thumbnail_item s"
  "extended_asset_name (append_all cs s) = extended_asset_name s"
  by (induction cs arbitrary: s) simp_all

lemma append_copy_eq: "append_copy addr s = append_all (copies_of addr s) s"
  by (simp add: append_copy_def copies_of_def split: option.splits)

subsection \<open>Renaming in place\<close>

lemma rename_item_fields [simp]:
  "length (store (rename_item ren nn addr s)) = length (store s)"
  "component_list (rename_item ren nn addr s) = component_list s"
  "thumbnail_data_items (rename_item ren nn addr s) = thumbnail_data_items s"
  "thumbnail_item (rename_item ren nn addr s) = thumbnail_item s"
  "extended_asset_name (rename_item ren nn addr s) = extended_asset_name s"
  by (simp_all add: rename_item_def set_asset_name_def split: option.splits)

lemma strip_name_rename [simp]: "strip_name (c\<lparr>asset_name := n\<rparr>) = strip_name c"
  by (simp add: strip_name_def)

lemma rename_item_nth:
  "a < length (store s) \<Longrightarrow>
   store (rename_item ren nn addr s) ! a
   = (if ren \<and> addr = Some a then (store s ! a)\<lparr>asset_name := the nn\<rparr> else store s ! a)"
  by (auto simp: rename_item_def set_asset_name_def split: option.splits)

lemma rename_item_strip:
  "a < length (store s) \<Longrightarrow>
   strip_name (store (rename_item ren nn addr s) ! a) = strip_name (store s ! a)"
  by (simp add: rename_item_nth)

subsection \<open>The match is one of the items\<close>

lemma matching_in_items:
  "snd (get_matching_thumbnail_item r ds ms) = Some d \<Longrightarrow> d \<in> set ds"
  by (cases ds)
     (auto simp: get_matching_thumbnail_item_def Let_def find_Some_iff
           split: if_splits option.splits)

lemma matched_item_binding:
  "matched_item r ms s = Some a \<Longrightarrow> a \<in> binding_addrs (thumbnail_data_items s)"
  by (auto simp: matched_item_def binding_addrs_def dest: matching_in_items)

lemma matched_src_binding:
  "matched_src r ms s = Some b \<Longrightarrow> b \<in> binding_addrs (thumbnail_data_items s)"
  by (auto simp: matched_src_def binding_addrs_def dest: matching_in_items split: option.splits)

subsection \<open>The relation between a state and a later one\<close>

lemma extends_refl: "extends s s"
  by (simp add: extends_def)

lemma extends_trans:
  assumes "extends s s1" "extends s1 s2"
  shows "extends s s2"
proof -
  from assms obtain n1 n2 where
    l1: "component_list s1 = component_list s @ n1"
        "\<forall>a \<in> set n1. length (store s) \<le> a \<and> a < length (store s1)"
    and l2: "component_list s2 = component_list s1 @ n2"
        "\<forall>a \<in> set n2. length (store s1) \<le> a \<and> a < length (store s2)"
    unfolding extends_def by blast
  have len: "length (store s) \<le> length (store s1)" "length (store s1) \<le> length (store s2)"
    and items: "thumbnail_data_items s1 = thumbnail_data_items s"
               "thumbnail_data_items s2 = thumbnail_data_items s1"
    using assms unfolding extends_def by auto
  have "component_list s2 = component_list s @ (n1 @ n2)"
    using l1 l2 by simp
  moreover have "\<forall>a \<in> set (n1 @ n2). length (store s) \<le> a \<and> a < length (store s2)"
    using l1 l2 len by fastforce
  moreover have "\<forall>a < length (store s).
          strip_name (store s2 ! a) = strip_name (store s ! a)
          \<and> (a \<notin> binding_addrs (thumbnail_data_items s) \<longrightarrow> store s2 ! a = store s ! a)"
  proof (intro allI impI)
    fix a assume a: "a < length (store s)"
    then have a1: "a < length (store s1)" using len by simp
    from assms(1) a have
      "strip_name (store s1 ! a) = strip_name (store s ! a)"
      "a \<notin> binding_addrs (thumbnail_data_items s) \<longrightarrow> store s1 ! a = store s ! a"
      unfolding extends_def by auto
    moreover from assms(2) a1 items have
      "strip_name (store s2 ! a) = strip_name (store s1 ! a)"
      "a \<notin> binding_addrs (thumbnail_data_items s) \<longrightarrow> store s2 ! a = store s1 ! a"
      unfolding extends_def by auto
    ultimately show "strip_name (store s2 ! a) = strip_name (store s ! a)
          \<and> (a \<notin> binding_addrs (thumbnail_data_items s) \<longrightarrow> store s2 ! a = store s ! a)"
      by simp
  qed
  moreover have "length (store s) \<le> length (store s2)"
    using len by simp
  moreover have "thumbnail_data_items s2 = thumbnail_data_items s"
    using items by simp
  ultimately show ?thesis
    unfolding extends_def by blast
qed

lemma extends_wf:
  assumes "wf_state s" "extends s s'"
  shows "wf_state s'"
proof -
  from assms(2) obtain new where
    l: "component_list s' = component_list s @ new"
       "\<forall>a \<in> set new. length (store s) \<le> a \<and> a < length (store s')"
    and len: "length (store s) \<le> length (store s')"
    and items: "thumbnail_data_items s' = thumbnail_data_items s"
    unfolding extends_def by blast
  show ?thesis
    unfolding wf_state_def
  proof (intro conjI ballI)
    fix a assume "a \<in> binding_addrs (thumbnail_data_items s')"
    with items assms(1) len show "a < length (store s')"
      unfolding wf_state_def by fastforce
  next
    fix a assume "a \<in> set (component_list s')"
    with l assms(1) len show "a < length (store s')"
      unfolding wf_state_def by fastforce
  qed
qed

lemma extends_append_all: "extends s (append_all cs s)"
  by (auto simp: extends_def nth_append)

subsection \<open>The state after the renaming\<close>

lemma renamed_state_fields [simp]:
  "length (store (renamed_state C base ms mr idx r s)) = length (store s)"
  "component_list (renamed_state C base ms mr idx r s) = component_list s"
  "thumbnail_data_items (renamed_state C base ms mr idx r s) = thumbnail_data_items s"
  "thumbnail_item (renamed_state C base ms mr idx r s) = thumbnail_item s"
  "extended_asset_name (renamed_state C base ms mr idx r s)
     = make_extended_component_name C base r idx"
  by (simp_all add: renamed_state_def)

lemma renamed_state_nth:
  assumes "a < length (store s)"
  shows "store (renamed_state C base ms mr idx r s) ! a
         = (if is_renaming C base mr idx r
               \<and> (matched_item r ms s = Some a \<or> matched_src r ms s = Some a)
            then (store s ! a)\<lparr>asset_name := the (make_extended_component_name C base r idx)\<rparr>
            else store s ! a)"
  using assms by (auto simp: renamed_state_def rename_item_nth)

lemma renamed_state_extends: "extends s (renamed_state C base ms mr idx r s)"
  unfolding extends_def
  by (auto simp: renamed_state_nth dest: matched_item_binding matched_src_binding)

lemma renamed_state_wf: "wf_state s \<Longrightarrow> wf_state (renamed_state C base ms mr idx r s)"
  by (rule extends_wf [OF _ renamed_state_extends])

lemma sync_thumbnail_eq:
  assumes "wf_state s"
  shows "sync_thumbnail C base ms mr idx r s
    = (append_all
         (copies_of (matched_item r ms s) (renamed_state C base ms mr idx r s)
          @ copies_of (matched_src r ms s) (renamed_state C base ms mr idx r s))
         (renamed_state C base ms mr idx r s),
       if is_renaming C base mr idx r
       then the (make_extended_component_name C base r idx) else asset_name base)"
proof -
  let ?rs = "renamed_state C base ms mr idx r s"
  have src: "copies_of (matched_src r ms s)
               (append_all (copies_of (matched_item r ms s) ?rs) ?rs)
             = copies_of (matched_src r ms s) ?rs"
  proof (cases "matched_src r ms s")
    case None
    then show ?thesis by (simp add: copies_of_def)
  next
    case (Some b)
    with assms matched_src_binding [OF Some] have "b < length (store ?rs)"
      by (simp add: wf_state_def)
    with Some show ?thesis by (simp add: copies_of_def nth_append)
  qed
  show ?thesis
    unfolding sync_thumbnail_def Let_def append_copy_eq
    using src
    by (simp add: renamed_state_def is_renaming_def matched_item_def matched_src_def
          append_all_append)
qed

subsection \<open>Components built from another one\<close>

lemma create_src_component_fields:
  assumes "create_src_component C E I r ci loc = Inr src"
  shows "asset_name src = asset_name ci" "component_path src = component_path ci"
    "thumbnail src = False" "component_location_name src = Some loc"
    "component_name src = component_name ci @ ''_src''"
    "prepare_component_metadata C E I r (component_path ci) False
       = Inr (component_metadata src)"
  using assms
  by (auto simp: create_src_component_def ebind_eq_Inr component_name_def
        component_metadata_def split: option.splits)

lemma review_src_same:
  assumes "review_src C E I r ci = Inr cs" "c \<in> set cs"
  shows "same_origin ci c"
  using assms
  by (auto simp: review_src_def ebind_eq_Inr same_origin_def
        dest: create_src_component_fields(1,2) split: if_splits)

lemma origin_name_component_same:
  assumes "origin_name_component C E p ci = Inr cs" "c \<in> set cs"
  shows "same_origin ci c"
  using assms
  by (auto simp: origin_name_component_def same_origin_def split: if_splits option.splits)

subsection \<open>One run of the review loop\<close>

lemma review_step_skip:
  "\<not> is_repre_video E r \<and> hm \<Longrightarrow> review_step C E I base ms mr hm idx r s = Inr s"
  by (simp add: review_step_def)

lemma review_step_shape:
  assumes step: "review_step C E I base ms mr hm idx r s = Inr s1"
    and run: "is_repre_video E r \<or> \<not> hm"
    and wf: "wf_state s"
  shows "\<exists>m src_comps origin_comps.
      review_metadata C E I base r (get_publish_repre_path E r False) = Inr m
    \<and> review_src C E I r
         (review_component base (review_name C base mr idx r)
            (get_publish_repre_path E r False) m) = Inr src_comps
    \<and> origin_name_component C E (get_publish_repre_path E r False)
         (review_component base (review_name C base mr idx r)
            (get_publish_repre_path E r False) m) = Inr origin_comps
    \<and> s1 = append_all
             (copies_of (matched_item r ms s) (renamed_state C base ms mr idx r s)
              @ copies_of (matched_src r ms s) (renamed_state C base ms mr idx r s)
              @ src_comps
              @ [review_component base (review_name C base mr idx r)
                   (get_publish_repre_path E r False) m]
              @ origin_comps)
             (renamed_state C base ms mr idx r s)"
proof -
  let ?p = "get_publish_repre_path E r False"
  let ?rs = "renamed_state C base ms mr idx r s"
  let ?nm = "review_name C base mr idx r"
  have sync: "sync_thumbnail C base ms mr idx r s
    = (append_all (copies_of (matched_item r ms s) ?rs @ copies_of (matched_src r ms s) ?rs) ?rs,
       ?nm)"
    using sync_thumbnail_eq [OF wf] by (simp add: review_name_def)
  from step run have
    "ebind (review_metadata C E I base r ?p) (\<lambda>m.
       ebind (review_src C E I r (review_component base ?nm ?p m)) (\<lambda>src_comps.
       ebind (origin_name_component C E ?p (review_component base ?nm ?p m)) (\<lambda>origin_comps.
         Inr (append_all (src_comps @ [review_component base ?nm ?p m] @ origin_comps)
               (append_all (copies_of (matched_item r ms s) ?rs
                            @ copies_of (matched_src r ms s) ?rs) ?rs))))) = Inr s1"
    unfolding review_step_def Let_def sync by (simp split: if_splits)
  then obtain m src_comps origin_comps where
    "review_metadata C E I base r ?p = Inr m"
    "review_src C E I r (review_component base ?nm ?p m) = Inr src_comps"
    "origin_name_component C E ?p (review_component base ?nm ?p m) = Inr origin_comps"
    "s1 = append_all (src_comps @ [review_component base ?nm ?p m] @ origin_comps)
               (append_all (copies_of (matched_item r ms s) ?rs
                            @ copies_of (matched_src r ms s) ?rs) ?rs)"
    by (auto simp: ebind_eq_Inr)
  then show ?thesis
    by (simp add: append_all_append)
qed

lemma review_step_extends:
  assumes "review_step C E I base ms mr hm idx r s = Inr s1" "wf_state s"
  shows "extends s s1"
proof (cases "is_repre_video E r \<or> \<not> hm")
  case True
  from review_step_shape [OF assms(1) True assms(2)] obtain cs where
    "s1 = append_all cs (renamed_state C base ms mr idx r s)"
    by blast
  then show ?thesis
    using extends_trans [OF renamed_state_extends extends_append_all] by simp
next
  case False
  with assms(1) show ?thesis
    by (simp add: review_step_def extends_refl)
qed

lemma review_loop_extends:
  "review_loop C E I base ms mr hm idx rs s = Inr s' \<Longrightarrow> wf_state s \<Longrightarrow> extends s s'"
proof (induction rs arbitrary: idx s)
  case Nil
  then show ?case by (simp add: extends_refl)
next
  case (Cons r rs)
  from Cons.prems(1) obtain s1 where
    step: "review_step C E I base ms mr hm idx r s = Inr s1"
    and rest: "review_loop C E I base ms mr hm (Suc idx) rs s1 = Inr s'"
    by (auto simp: ebind_eq_Inr)
  note e1 = review_step_extends [OF step Cons.prems(2)]
  from Cons.IH [OF rest extends_wf [OF Cons.prems(2) e1]] e1
  show ?case by (blast intro: extends_trans)
qed

lemma review_loop_append:
  "review_loop C E I base ms mr hm idx (xs @ ys) s
   = ebind (review_loop C E I base ms mr hm idx xs s)
       (review_loop C E I base ms mr hm (idx + length xs) ys)"
proof (induction xs arbitrary: idx s)
  case Nil
  then show ?case by simp
next
  case (Cons x xs)
  show ?case
    by (cases "review_step C E I base ms mr hm idx x s") (simp_all add: Cons.IH)
qed

subsection \<open>The loop over the other representations\<close>

lemma other_step_extends:
  "other_step C E I base mr r s = Inr s' \<Longrightarrow> extends s s'"
  using extends_append_all [of s "[c]" for c]
  by (auto simp: other_step_def Let_def ebind_eq_Inr extends_refl split: if_splits)

lemma other_loop_extends:
  "other_loop C E I base mr rs s = Inr s' \<Longrightarrow> extends s s'"
proof (induction rs arbitrary: s)
  case Nil
  then show ?case by (simp add: extends_refl)
next
  case (Cons r rs)
  then show ?case
    by (auto simp: ebind_eq_Inr intro: extends_trans other_step_extends)
qed

subsection \<open>The loop over the thumbnails\<close>

lemma wf_initial: "wf_state initial_state"
  by (simp add: wf_state_def initial_state_def binding_addrs_def)

lemma binding_addrs_snoc:
  "binding_addrs (ds @ [d])
   = binding_addrs ds \<union> {td_item d} \<union> (case src_component d of None \<Rightarrow> {} | Some b \<Rightarrow> {b})"
  by (auto simp: binding_addrs_def split: option.splits)

lemma tags_or_default_Inr: "tags_or_default r = Inr ts \<Longrightarrow> ts = tags_of r"
  by (auto simp: tags_or_default_def tags_of_def split: tags_entry.splits)

lemma thumbnail_step_cases:
  assumes "thumbnail_step C E I base hr r s = Inr s'"
  shows "(\<not> truthy_str (get_publish_repre_path E r False) \<and> s' = s)
    \<or> (truthy_str (get_publish_repre_path E r False) \<and> ''delete'' \<in> set (tags_of r)
        \<and> s' = s\<lparr>store := store s
                      @ [thumbnail_component E base hr r (get_publish_repre_path E r False)],
                  thumbnail_item := Some (length (store s)),
                  thumbnail_data_items := thumbnail_data_items s
                      @ [\<lparr>sync_key = r_outputName r, representation = r,
                          td_item = length (store s), src_component = None\<rparr>]\<rparr>)
    \<or> (truthy_str (get_publish_repre_path E r False) \<and> ''delete'' \<notin> set (tags_of r)
        \<and> (\<exists>src. create_src_component C E I r
                     (thumbnail_component E base hr r (get_publish_repre_path E r False))
                     unmanaged_location_name = Inr src
              \<and> s' = s\<lparr>store := store s
                          @ [thumbnail_component E base hr r (get_publish_repre_path E r False),
                             src],
                        thumbnail_item := Some (length (store s)),
                        component_list := component_list s @ [Suc (length (store s))],
                        thumbnail_data_items := thumbnail_data_items s
                          @ [\<lparr>sync_key = r_outputName r, representation = r,
                              td_item = length (store s),
                              src_component = Some (Suc (length (store s)))\<rparr>]\<rparr>))"
  using assms
  by (auto simp: thumbnail_step_def Let_def alloc_def append_component_def ebind_eq_Inr
        dest!: tags_or_default_Inr split: if_splits)

lemma thumbnail_step_wf:
  assumes "thumbnail_step C E I base hr r s = Inr s'" "wf_state s"
  shows "wf_state s'"
  using thumbnail_step_cases [OF assms(1)] assms(2)
  by (elim disjE conjE exE) (auto simp: wf_state_def binding_addrs_snoc less_Suc_eq)

lemma thumbnail_loop_wf:
  "thumbnail_loop C E I base hr rs s = Inr s' \<Longrightarrow> wf_state s \<Longrightarrow> wf_state s'"
proof (induction rs arbitrary: s)
  case Nil
  then show ?case by simp
next
  case (Cons r rs)
  then show ?case
    by (auto simp: ebind_eq_Inr dest: thumbnail_step_wf)
qed

lemma assemble_phases:
  assumes "assemble C E I base reprs = Inr sf"
  shows "\<exists>s1 s2.
      thumbnail_loop C E I base (review_representations (classify E reprs) \<noteq> [])
        (thumbnail_representations (classify E reprs)) initial_state = Inr s1
    \<and> review_loop C E I base (multiple_synced_thumbnails (classify E reprs))
        (1 < length (surviving_reviews E (classify E reprs)))
        (has_movie_review (classify E reprs)) 0 (surviving_reviews E (classify E reprs)) s1
        = Inr s2
    \<and> other_loop C E I base (1 < length (surviving_reviews E (classify E reprs)))
        (other_representations (classify E reprs))
        (thumbnail_fallback (surviving_reviews E (classify E reprs)) s2) = Inr sf"
  using assms by (simp add: assemble_def Let_def ebind_eq_Inr)

lemma surviving_not_skipped:
  "r \<in> set (surviving_reviews E b) \<Longrightarrow> is_repre_video E r \<or> \<not> has_movie_review b"
  by (auto simp: surviving_reviews_def)

lemma thumbnail_fallback_reviews: "reviews \<noteq> [] \<Longrightarrow> thumbnail_fallback reviews s = s"
  by (simp add: thumbnail_fallback_def split: option.splits)

lemma extended_name_truthy:
  "make_extended_component_name C base r idx = Some n \<Longrightarrow> n \<noteq> []"
  by (auto simp: make_extended_component_name_def split: if_splits)

lemma rename_strip: "c\<lparr>asset_name := n\<rparr> = (strip_name c)\<lparr>asset_name := n\<rparr>"
  by (simp add: strip_name_def)

lemma extends_new_cell:
  assumes "extends s s'" "a < length (store s)" "a \<notin> binding_addrs (thumbnail_data_items s)"
  shows "store s' ! a = store s ! a"
  using assms unfolding extends_def by blast

lemma extends_old_cell:
  assumes "extends s s'" "a < length (store s)"
  shows "(store s' ! a)\<lparr>asset_name := n\<rparr> = (store s ! a)\<lparr>asset_name := n\<rparr>"
proof -
  from assms have "strip_name (store s' ! a) = strip_name (store s ! a)"
    unfolding extends_def by blast
  then show ?thesis
    using rename_strip [where c = "store s' ! a" and n = n]
      rename_strip [where c = "store s ! a" and n = n] by simp
qed

lemma extends_list:
  assumes "extends s s'"
  shows "\<exists>new. component_list s' = component_list s @ new"
  using assms unfolding extends_def by blast


lemma copies_of_renamed:
  assumes wf: "wf_state s" and ren: "is_renaming C base mr idx r"
    and name: "make_extended_component_name C base r idx = Some n"
  shows "matched_item r ms s = Some a \<Longrightarrow>
           copies_of (matched_item r ms s) (renamed_state C base ms mr idx r s)
           = [(store s ! a)\<lparr>asset_name := n\<rparr>]"
    and "matched_src r ms s = Some b \<Longrightarrow>
           copies_of (matched_src r ms s) (renamed_state C base ms mr idx r s)
           = [(store s ! b)\<lparr>asset_name := n\<rparr>]"
proof -
  assume m: "matched_item r ms s = Some a"
  with wf matched_item_binding [OF m] have "a < length (store s)"
    by (simp add: wf_state_def)
  with m ren name show "copies_of (matched_item r ms s) (renamed_state C base ms mr idx r s)
           = [(store s ! a)\<lparr>asset_name := n\<rparr>]"
    by (simp add: copies_of_def renamed_state_nth)
next
  assume m: "matched_src r ms s = Some b"
  with wf matched_src_binding [OF m] have "b < length (store s)"
    by (simp add: wf_state_def)
  with m ren name show "copies_of (matched_src r ms s) (renamed_state C base ms mr idx r s)
           = [(store s ! b)\<lparr>asset_name := n\<rparr>]"
    by (simp add: copies_of_def renamed_state_nth)
qed

lemma copies_of_names:
  assumes wf: "wf_state s" and ren: "is_renaming C base mr idx r"
    and name: "make_extended_component_name C base r idx = Some n"
  shows "\<forall>c \<in> set (copies_of (matched_item r ms s) (renamed_state C base ms mr idx r s)
                    @ copies_of (matched_src r ms s) (renamed_state C base ms mr idx r s)).
           asset_name c = n"
proof -
  have "\<forall>c \<in> set (copies_of (matched_item r ms s) (renamed_state C base ms mr idx r s)).
           asset_name c = n"
  proof (cases "matched_item r ms s")
    case None
    then show ?thesis by (simp add: copies_of_def)
  next
    case (Some a)
    from copies_of_renamed(1) [OF wf ren name Some] show ?thesis by simp
  qed
  moreover
  have "\<forall>c \<in> set (copies_of (matched_src r ms s) (renamed_state C base ms mr idx r s)).
           asset_name c = n"
  proof (cases "matched_src r ms s")
    case None
    then show ?thesis by (simp add: copies_of_def)
  next
    case (Some b)
    from copies_of_renamed(2) [OF wf ren name Some] show ?thesis by simp
  qed
  ultimately show ?thesis by auto
qed

text \<open>What one renaming run appends, in the state right after it.\<close>

lemma review_step_renamed:
  assumes step: "review_step C E I base ms mr hm idx r s = Inr s1"
    and run: "is_repre_video E r \<or> \<not> hm"
    and wf: "wf_state s"
    and ren: "is_renaming C base mr idx r"
    and name: "make_extended_component_name C base r idx = Some n"
  shows "\<exists>cs m.
      s1 = append_all cs (renamed_state C base ms mr idx r s)
    \<and> (\<forall>c \<in> set cs. asset_name c = n)
    \<and> review_metadata C E I base r (get_publish_repre_path E r False) = Inr m
    \<and> review_component base n (get_publish_repre_path E r False) m \<in> set cs
    \<and> (\<forall>a. matched_item r ms s = Some a \<longrightarrow> (store s ! a)\<lparr>asset_name := n\<rparr> \<in> set cs)
    \<and> (\<forall>b. matched_src r ms s = Some b \<longrightarrow> (store s ! b)\<lparr>asset_name := n\<rparr> \<in> set cs)"
proof -
  let ?p = "get_publish_repre_path E r False"
  let ?rs = "renamed_state C base ms mr idx r s"
  have nm: "review_name C base mr idx r = n"
    using ren name by (simp add: review_name_def)
  from review_step_shape [OF step run wf] nm obtain m src_comps origin_comps where
    meta: "review_metadata C E I base r ?p = Inr m"
    and src: "review_src C E I r (review_component base n ?p m) = Inr src_comps"
    and orig: "origin_name_component C E ?p (review_component base n ?p m) = Inr origin_comps"
    and s1: "s1 = append_all
             (copies_of (matched_item r ms s) ?rs @ copies_of (matched_src r ms s) ?rs
              @ src_comps @ [review_component base n ?p m] @ origin_comps) ?rs"
    by auto
  let ?cs = "copies_of (matched_item r ms s) ?rs @ copies_of (matched_src r ms s) ?rs
              @ src_comps @ [review_component base n ?p m] @ origin_comps"
  have n_item: "asset_name (review_component base n ?p m) = n"
    by (simp add: review_component_def)
  have n_src: "\<forall>c \<in> set src_comps. asset_name c = n"
    using review_src_same [OF src] n_item by (simp add: same_origin_def)
  have n_orig: "\<forall>c \<in> set origin_comps. asset_name c = n"
    using origin_name_component_same [OF orig] n_item by (simp add: same_origin_def)
  have names: "\<forall>c \<in> set ?cs. asset_name c = n"
    using copies_of_names [OF wf ren name, of ms] n_src n_orig n_item by auto
  have c1: "\<forall>a. matched_item r ms s = Some a \<longrightarrow> (store s ! a)\<lparr>asset_name := n\<rparr> \<in> set ?cs"
    using copies_of_renamed(1) [OF wf ren name] by simp
  have c2: "\<forall>b. matched_src r ms s = Some b \<longrightarrow> (store s ! b)\<lparr>asset_name := n\<rparr> \<in> set ?cs"
    using copies_of_renamed(2) [OF wf ren name] by simp
  have "review_component base n ?p m \<in> set ?cs" by simp
  with s1 names meta c1 c2 show ?thesis by blast
qed

lemma append_all_nth_new:
  "i < length cs \<Longrightarrow> store (append_all cs s) ! (length (store s) + i) = cs ! i"
  by (simp add: nth_append)

text \<open>
  The segment of the final component list that one renaming run of the review loop has
  appended: every entry carries the extended name in the final store.
\<close>

lemma renaming_run_segment:
  assumes asm: "assemble C E I base instance_repres = Inr sf"
    and split: "surviving_reviews E (classify E instance_repres) = pre @ r # post"
    and multi: "pre \<noteq> [] \<or> post \<noteq> []"
    and name: "make_extended_component_name C base r (length pre) = Some n"
  shows "\<exists>before new later.
           component_list sf = before @ new @ later
         \<and> (\<forall>a \<in> set new. asset_name (store sf ! a) = n)
         \<and> (\<exists>a \<in> set new. \<exists>m.
               review_metadata C E I base r (get_publish_repre_path E r False) = Inr m
               \<and> store sf ! a = review_component base n (get_publish_repre_path E r False) m)
         \<and> (\<forall>d. snd (get_matching_thumbnail_item r (thumbnail_data_items sf)
                        (multiple_synced_thumbnails (classify E instance_repres))) = Some d
               \<longrightarrow> (\<exists>a \<in> set new. store sf ! a = (store sf ! td_item d)\<lparr>asset_name := n\<rparr>)
                 \<and> (\<forall>b. src_component d = Some b
                        \<longrightarrow> (\<exists>a \<in> set new. store sf ! a = (store sf ! b)\<lparr>asset_name := n\<rparr>)))"
proof -
  let ?b = "classify E instance_repres"
  let ?ms = "multiple_synced_thumbnails ?b"
  let ?hm = "has_movie_review ?b"
  let ?p = "get_publish_repre_path E r False"
  have mr: "1 < length (surviving_reviews E ?b)"
    using split multi by (cases pre; cases post) simp_all
  have nonempty: "surviving_reviews E ?b \<noteq> []"
    using split by simp
  from assemble_phases [OF asm] mr split thumbnail_fallback_reviews [OF nonempty]
  obtain s0 s2 where
    thumbs: "thumbnail_loop C E I base (review_representations ?b \<noteq> [])
               (thumbnail_representations ?b) initial_state = Inr s0"
    and reviews: "review_loop C E I base ?ms True ?hm 0 (pre @ r # post) s0 = Inr s2"
    and others: "other_loop C E I base True (other_representations ?b) s2 = Inr sf"
    by auto
  have wf0: "wf_state s0"
    using thumbnail_loop_wf [OF thumbs wf_initial] .
  from reviews obtain s s1 where
    before: "review_loop C E I base ?ms True ?hm 0 pre s0 = Inr s"
    and step: "review_step C E I base ?ms True ?hm (length pre) r s = Inr s1"
    and after: "review_loop C E I base ?ms True ?hm (Suc (length pre)) post s1 = Inr s2"
    by (auto simp: review_loop_append ebind_eq_Inr)
  have e0: "extends s0 s" using review_loop_extends [OF before wf0] .
  have wf: "wf_state s" using extends_wf [OF wf0 e0] .
  have e1: "extends s s1" using review_step_extends [OF step wf] .
  have wf1: "wf_state s1" using extends_wf [OF wf e1] .
  have e2: "extends s1 s2" using review_loop_extends [OF after wf1] .
  have e3: "extends s2 sf" using other_loop_extends [OF others] .
  have e1f: "extends s1 sf" using extends_trans [OF e2 e3] .
  have esf: "extends s sf" using extends_trans [OF e1 e1f] .
  have run: "is_repre_video E r \<or> \<not> ?hm"
    using surviving_not_skipped [of r E ?b] split by simp
  have ren: "is_renaming C base True (length pre) r"
    using name extended_name_truthy [OF name] by (simp add: is_renaming_def truthy_str_def)
  from review_step_renamed [OF step run wf ren name] obtain cs m where
    s1: "s1 = append_all cs (renamed_state C base ?ms True (length pre) r s)"
    and names: "\<forall>c \<in> set cs. asset_name c = n"
    and meta: "review_metadata C E I base r ?p = Inr m"
    and item: "review_component base n ?p m \<in> set cs"
    and c1: "\<forall>a. matched_item r ?ms s = Some a \<longrightarrow> (store s ! a)\<lparr>asset_name := n\<rparr> \<in> set cs"
    and c2: "\<forall>b. matched_src r ?ms s = Some b \<longrightarrow> (store s ! b)\<lparr>asset_name := n\<rparr> \<in> set cs"
    by blast
  let ?L = "length (store s)"
  let ?new = "[?L..<?L + length cs]"
  have len1: "length (store s1) = ?L + length cs"
    using s1 by simp
  have list1: "component_list s1 = component_list s @ ?new"
    using s1 by simp
  have items1: "thumbnail_data_items s1 = thumbnail_data_items s"
    using s1 by simp
  have itemsf: "thumbnail_data_items sf = thumbnail_data_items s"
    using esf by (simp add: extends_def)
  text \<open>A cell appended by this run is never touched again.\<close>
  have keep: "store sf ! (?L + i) = cs ! i" if "i < length cs" for i
  proof -
    have "?L + i \<notin> binding_addrs (thumbnail_data_items s1)"
      using wf items1 by (auto simp: wf_state_def)
    moreover have "?L + i < length (store s1)"
      using that len1 by simp
    ultimately have "store sf ! (?L + i) = store s1 ! (?L + i)"
      using extends_new_cell [OF e1f] by blast
    also have "\<dots> = cs ! i"
      using that s1 by (simp add: nth_append)
    finally show ?thesis .
  qed
  have found: "\<exists>a \<in> set ?new. store sf ! a = c" if "c \<in> set cs" for c
  proof -
    from that obtain i where i: "i < length cs" "cs ! i = c"
      by (auto simp: in_set_conv_nth)
    then have "?L + i \<in> set ?new" by simp
    with keep [OF i(1)] i(2) show ?thesis by blast
  qed
  from extends_list [OF e1f] obtain later where
    later: "component_list sf = component_list s1 @ later"
    by blast
  have A: "component_list sf = component_list s @ ?new @ later"
    using later list1 by simp
  have B: "\<forall>a \<in> set ?new. asset_name (store sf ! a) = n"
  proof
    fix a assume "a \<in> set ?new"
    then have bounds: "?L \<le> a" "a < ?L + length cs"
      by simp_all
    define i where "i = a - ?L"
    from bounds have i: "a = ?L + i" "i < length cs"
      unfolding i_def by arith+
    from keep [OF i(2)] names i show "asset_name (store sf ! a) = n"
      by simp
  qed
  have Cc: "\<exists>a \<in> set ?new. \<exists>m. review_metadata C E I base r ?p = Inr m
               \<and> store sf ! a = review_component base n ?p m"
    using found [OF item] meta by blast
  have D: "(\<exists>a \<in> set ?new. store sf ! a = (store sf ! td_item d)\<lparr>asset_name := n\<rparr>)
           \<and> (\<forall>b. src_component d = Some b
                  \<longrightarrow> (\<exists>a \<in> set ?new. store sf ! a = (store sf ! b)\<lparr>asset_name := n\<rparr>))"
    if d: "snd (get_matching_thumbnail_item r (thumbnail_data_items sf) ?ms) = Some d" for d
  proof (intro conjI allI impI)
    from d itemsf have mi: "matched_item r ?ms s = Some (td_item d)"
      by (simp add: matched_item_def)
    have lt: "td_item d < ?L"
      using wf matched_item_binding [OF mi] by (simp add: wf_state_def)
    from c1 mi have "(store s ! td_item d)\<lparr>asset_name := n\<rparr> \<in> set cs" by blast
    from found [OF this] extends_old_cell [OF esf lt, of n]
    show "\<exists>a \<in> set ?new. store sf ! a = (store sf ! td_item d)\<lparr>asset_name := n\<rparr>"
      by simp
  next
    fix b assume b: "src_component d = Some b"
    from d itemsf b have ms: "matched_src r ?ms s = Some b"
      by (simp add: matched_src_def)
    have lt: "b < ?L"
      using wf matched_src_binding [OF ms] by (simp add: wf_state_def)
    from c2 ms have "(store s ! b)\<lparr>asset_name := n\<rparr> \<in> set cs" by blast
    from found [OF this] extends_old_cell [OF esf lt, of n]
    show "\<exists>a \<in> set ?new. store sf ! a = (store sf ! b)\<lparr>asset_name := n\<rparr>"
      by simp
  qed
  from A B Cc D show ?thesis by blast
qed

section \<open>The assembly on concrete instances\<close>

lemmas eval_defs =
  thumbnail_step_def example_env_def truthy_str_def thumbnail_main_def thumbnail_a_def
  thumbnail_b_def review_a_def review_b_def review_main_def
  example_repre_def tags_of_def tags_or_default_def Let_def alloc_def append_component_def
  initial_state_def
  create_src_component_def example_base_def base_component_item_def
  prepare_component_metadata_def thumbnail_component_def
  is_repre_video_def is_repre_image_def prepare_image_component_metadata_def opt_int_def
  unmanaged_location_name_def ftrack_server_location_name_def
  prepare_video_component_metadata_def version_metadata_def add_version_def
  example_config_def path_extension_def posix_splitext_def probe_streams_def
  review_step_def sync_thumbnail_def get_matching_thumbnail_item_def in_tags_def
  make_extended_component_name_def rename_item_def append_copy_def set_asset_name_def
  review_metadata_def review_component_def review_src_def origin_name_component_def
  append_all_def append_new_def

lemma ebind_assoc: "ebind (ebind m f) g = ebind m (\<lambda>x. ebind (f x) g)"
  by (cases m) simp_all

text \<open>The three loops of the assembly, one after the other.\<close>

lemma assemble_chain:
  "assemble C E I base reprs
   = ebind (ebind (thumbnail_loop C E I base (review_representations (classify E reprs) \<noteq> [])
                     (thumbnail_representations (classify E reprs)) initial_state)
                  (review_loop C E I base (multiple_synced_thumbnails (classify E reprs))
                     (1 < length (surviving_reviews E (classify E reprs)))
                     (has_movie_review (classify E reprs)) 0
                     (surviving_reviews E (classify E reprs))))
       (other_loop C E I base (1 < length (surviving_reviews E (classify E reprs)))
          (other_representations (classify E reprs))
        \<circ> thumbnail_fallback (surviving_reviews E (classify E reprs)))"
  unfolding assemble_def Let_def ebind_assoc comp_def ..

lemma example_make_base:
  "make_base (example_config keep_first []) example_env (example_instance rs) = Inr example_base"
  by (simp add: make_base_def example_instance_def example_config_def require_def
      get_asset_version_status_name_def version_custom_attributes_def example_base_def
      asset_type_of_def truthy_str_def mapped_asset_type_def lower_def lower_char_def)

lemma process_of_assemble:
  assumes "i_representations I = Some reprs" "reprs \<noteq> []" "make_base C E I = Inr base"
  shows "listed_names (process C E I)
         = (case assemble C E I base reprs of
              Inr s \<Rightarrow> map item_names (components_of s) | Inl e \<Rightarrow> [])"
  using assms
  by (cases "assemble C E I base reprs")
     (simp_all add: process_def process_state_def listed_names_def)

subsection \<open>Two reviews with a thumbnail each\<close>

lemma two_synced_classify:
  "classify example_env two_synced
   = \<lparr>review_representations = [review_a, review_b],
      thumbnail_representations = [thumbnail_a, thumbnail_b],
      other_representations = [], has_movie_review = True\<rparr>"
  by (simp add: two_synced_def classify_def classify_repre_def eval_defs)

lemma two_synced_surviving:
  "surviving_reviews example_env
     \<lparr>review_representations = [review_a, review_b],
      thumbnail_representations = [thumbnail_a, thumbnail_b],
      other_representations = [], has_movie_review = True\<rparr> = [review_a, review_b]"
  by (simp add: surviving_reviews_def eval_defs)

lemma two_synced_multiple:
  "multiple_synced_thumbnails
     \<lparr>review_representations = [review_a, review_b],
      thumbnail_representations = [thumbnail_a, thumbnail_b],
      other_representations = [], has_movie_review = True\<rparr> = True"
  by (simp add: multiple_synced_thumbnails_def synced_multiple_output_names_def eval_defs)

lemma two_synced_chain:
  "assemble C example_env I base two_synced
   = ebind (ebind (thumbnail_loop C example_env I base True [thumbnail_a, thumbnail_b]
                     initial_state)
                  (review_loop C example_env I base True True True 0 [review_a, review_b]))
       (other_loop C example_env I base True []
        \<circ> thumbnail_fallback [review_a, review_b])"
  unfolding assemble_chain two_synced_classify two_synced_surviving two_synced_multiple
  by simp

subsection \<open>Two reviews sharing one thumbnail\<close>

lemma shared_classify:
  "classify example_env one_thumbnail_two_reviews
   = \<lparr>review_representations = [review_a, review_b],
      thumbnail_representations = [thumbnail_main],
      other_representations = [], has_movie_review = True\<rparr>"
  by (simp add: one_thumbnail_two_reviews_def classify_def classify_repre_def eval_defs)

lemma shared_surviving:
  "surviving_reviews example_env
     \<lparr>review_representations = [review_a, review_b],
      thumbnail_representations = [thumbnail_main],
      other_representations = [], has_movie_review = True\<rparr>
   = [review_a, review_b]"
  by (simp add: surviving_reviews_def eval_defs)

lemma shared_not_multiple:
  "multiple_synced_thumbnails
     \<lparr>review_representations = [review_a, review_b],
      thumbnail_representations = [thumbnail_main],
      other_representations = [], has_movie_review = True\<rparr> = False"
  by (simp add: multiple_synced_thumbnails_def synced_multiple_output_names_def eval_defs)

lemma shared_chain:
  "assemble C example_env I base one_thumbnail_two_reviews
   = ebind (ebind (thumbnail_loop C example_env I base True [thumbnail_main] initial_state)
                  (review_loop C example_env I base False True True 0 [review_a, review_b]))
       (other_loop C example_env I base True []
        \<circ> thumbnail_fallback [review_a, review_b])"
  unfolding assemble_chain shared_classify shared_surviving shared_not_multiple
  by simp

section \<open>Aliasing between the component list and the thumbnail data items\<close>

text \<open>
  Claim C2, at an instance with one thumbnail and two video reviews, with the option to
  keep the first product name on.  After the loop over the thumbnails the component list
  holds the address 1, the shadow of the thumbnail, under the asset name of the product,
  and the thumbnail data item keeps the same address: the list entry and the kept shadow
  are one object.  The run of the review loop for the second review renames the kept
  shadow in place, so in the final list the entry at address 1, appended before any
  review was handled, carries the extended name of the second review.
\<close>

theorem shadow_shared_with_binding_renamed:
  "listed_cells (thumbnail_loop (example_config True []) example_env
       (example_instance (Some one_thumbnail_two_reviews)) example_base True [thumbnail_main]
       initial_state)
   = [(1, ''renderMain'', ''thumbnail_src'')]
   \<and> kept_shadows (thumbnail_loop (example_config True []) example_env
       (example_instance (Some one_thumbnail_two_reviews)) example_base True [thumbnail_main]
       initial_state)
   = [Some 1]
   \<and> listed_cells (assemble (example_config True []) example_env
       (example_instance (Some one_thumbnail_two_reviews)) example_base
       one_thumbnail_two_reviews)
   = [(1, ''renderMain_h264_b'', ''thumbnail_src''),
      (2, ''renderMain'', ''thumbnail''),
      (3, ''renderMain'', ''thumbnail_src''),
      (4, ''renderMain'', ''ftrackreview-mp4_src''),
      (5, ''renderMain'', ''ftrackreview-mp4''),
      (6, ''renderMain_h264_b'', ''thumbnail''),
      (7, ''renderMain_h264_b'', ''thumbnail_src''),
      (8, ''renderMain_h264_b'', ''ftrackreview-mp4_src''),
      (9, ''renderMain_h264_b'', ''ftrackreview-mp4'')]"
proof (intro conjI)
  show "listed_cells (thumbnail_loop (example_config True []) example_env
       (example_instance (Some one_thumbnail_two_reviews)) example_base True [thumbnail_main]
       initial_state)
   = [(1, ''renderMain'', ''thumbnail_src'')]"
    by (simp add: listed_cells_def item_names_def component_name_def eval_defs)
  show "kept_shadows (thumbnail_loop (example_config True []) example_env
       (example_instance (Some one_thumbnail_two_reviews)) example_base True [thumbnail_main]
       initial_state)
   = [Some 1]"
    by (simp add: kept_shadows_def eval_defs)
  show "listed_cells (assemble (example_config True []) example_env
       (example_instance (Some one_thumbnail_two_reviews)) example_base
       one_thumbnail_two_reviews)
   = [(1, ''renderMain_h264_b'', ''thumbnail_src''),
      (2, ''renderMain'', ''thumbnail''),
      (3, ''renderMain'', ''thumbnail_src''),
      (4, ''renderMain'', ''ftrackreview-mp4_src''),
      (5, ''renderMain'', ''ftrackreview-mp4''),
      (6, ''renderMain_h264_b'', ''thumbnail''),
      (7, ''renderMain_h264_b'', ''thumbnail_src''),
      (8, ''renderMain_h264_b'', ''ftrackreview-mp4_src''),
      (9, ''renderMain_h264_b'', ''ftrackreview-mp4'')]"
    unfolding shared_chain
    by (simp add: thumbnail_fallback_def listed_cells_def item_names_def component_name_def
          eval_defs)
qed

theorem shadow_shared_with_binding_renamed_witness:
  "hd (listed_cells (thumbnail_loop (example_config True []) example_env
         (example_instance (Some one_thumbnail_two_reviews)) example_base True [thumbnail_main]
         initial_state))
   = (1, ''renderMain'', ''thumbnail_src'')
   \<and> hd (listed_cells (assemble (example_config True []) example_env
         (example_instance (Some one_thumbnail_two_reviews)) example_base
         one_thumbnail_two_reviews))
   = (1, ''renderMain_h264_b'', ''thumbnail_src'')"
  using shadow_shared_with_binding_renamed by simp

section \<open>Instances without representations\<close>

text \<open>
  Claim C5, as the code has it.  For an instance whose representations are absent or
  empty the entry point returns at once: no exception is raised, not even the one for a
  missing version, and no component list is stored, not even an empty one.  The error
  for a missing version is raised for an instance that has a representation.
\<close>

theorem process_without_representations:
  "(i_representations I = None \<or> i_representations I = Some [] \<longrightarrow> process C E I = Inr None)
   \<and> (i_representations I = Some (r # rs) \<and> i_version I = None
        \<longrightarrow> process C E I = Inl ValueError)"
  by (auto simp: process_def process_state_def make_base_def)

theorem process_without_representations_counterexample:
  "process (example_config True []) example_env (example_instance (Some [])) = Inr None
   \<and> process (example_config True []) example_env (example_instance (Some [])) \<noteq> Inr (Some [])
   \<and> process (example_config True []) example_env (example_instance None) \<noteq> Inr (Some [])"
  by (simp add: process_def process_state_def example_instance_def)

theorem process_without_representations_witness:
  "i_representations ((example_instance None)\<lparr>i_version := None\<rparr>) = None
   \<and> i_representations ((example_instance (Some []))\<lparr>i_version := None\<rparr>) = Some []
   \<and> i_representations ((example_instance (Some [review_main]))\<lparr>i_version := None\<rparr>)
       = Some [review_main]
   \<and> i_version ((example_instance (Some [review_main]))\<lparr>i_version := None\<rparr>) = None
   \<and> process (example_config True []) example_env ((example_instance None)\<lparr>i_version := None\<rparr>)
       = Inr None
   \<and> process (example_config True []) example_env
         ((example_instance (Some []))\<lparr>i_version := None\<rparr>)
       = Inr None
   \<and> process (example_config True []) example_env
         ((example_instance (Some [review_main]))\<lparr>i_version := None\<rparr>)
       = Inl ValueError"
proof -
  have a: "i_representations ((example_instance None)\<lparr>i_version := None\<rparr>) = None"
    and b: "i_representations ((example_instance (Some []))\<lparr>i_version := None\<rparr>) = Some []"
    and c: "i_representations ((example_instance (Some [review_main]))\<lparr>i_version := None\<rparr>)
            = Some [review_main]"
    and d: "i_version ((example_instance (Some [review_main]))\<lparr>i_version := None\<rparr>) = None"
    by (simp_all add: example_instance_def)
  note t = process_without_representations [of _ "example_config True []" example_env]
  from t [of "(example_instance None)\<lparr>i_version := None\<rparr>"] a
  have 1: "process (example_config True []) example_env
             ((example_instance None)\<lparr>i_version := None\<rparr>) = Inr None"
    by blast
  from t [of "(example_instance (Some []))\<lparr>i_version := None\<rparr>"] b
  have 2: "process (example_config True []) example_env
             ((example_instance (Some []))\<lparr>i_version := None\<rparr>) = Inr None"
    by blast
  from t [of "(example_instance (Some [review_main]))\<lparr>i_version := None\<rparr>" review_main "[]"] c d
  have 3: "process (example_config True []) example_env
             ((example_instance (Some [review_main]))\<lparr>i_version := None\<rparr>) = Inl ValueError"
    by blast
  from a b c d 1 2 3 show ?thesis by blast
qed

subsection \<open>The lists assembled for two reviews with a thumbnail each\<close>

lemma two_synced_names:
  "(case assemble (example_config False []) example_env (example_instance (Some two_synced))
           example_base two_synced of
      Inr s \<Rightarrow> map item_names (components_of s) | Inl e \<Rightarrow> [])
   = [(''renderMain_h264_a'', ''thumbnail_src''),
      (''renderMain_h264_b'', ''thumbnail_src''),
      (''renderMain_h264_a'', ''thumbnail''),
      (''renderMain_h264_a'', ''thumbnail_src''),
      (''renderMain_h264_a'', ''ftrackreview-mp4_src''),
      (''renderMain_h264_a'', ''ftrackreview-mp4''),
      (''renderMain_h264_b'', ''thumbnail''),
      (''renderMain_h264_b'', ''thumbnail_src''),
      (''renderMain_h264_b'', ''ftrackreview-mp4_src''),
      (''renderMain_h264_b'', ''ftrackreview-mp4'')]"
  unfolding two_synced_chain
  by (simp add: thumbnail_fallback_def components_of_def item_names_def
        component_name_def eval_defs)

lemma two_synced_succeeds:
  "\<exists>sf. assemble (example_config True []) example_env (example_instance (Some two_synced))
           example_base two_synced = Inr sf"
  unfolding two_synced_chain
  by (simp add: thumbnail_fallback_def eval_defs)

lemma two_synced_succeeds_unkept:
  "\<exists>sf. assemble (example_config False []) example_env (example_instance (Some two_synced))
           example_base two_synced = Inr sf"
  using two_synced_names
  by (cases "assemble (example_config False []) example_env (example_instance (Some two_synced))
           example_base two_synced") simp_all

lemma two_synced_split:
  "surviving_reviews example_env (classify example_env two_synced) = [review_a, review_b]"
  unfolding two_synced_classify two_synced_surviving ..

section \<open>Renaming with the extended name\<close>

text \<open>
  Claim C7.  Let \<open>r\<close> be a surviving review representation of an instance with more than
  one surviving review, at a position where the extended name \<open>n\<close> is computed.  Then the
  component list of the final state has a segment, appended by the run of the review loop
  for \<open>r\<close>, every entry of which carries the asset name \<open>n\<close> in the final store; the
  review item of \<open>r\<close> is in that segment, and when a thumbnail data item is matched to
  \<open>r\<close>, so are a copy of its item and, when it has one, a copy of its shadow: each is the
  respective item with the asset name \<open>n\<close>.
\<close>

theorem extended_name_propagates:
  assumes asm: "assemble C E I base instance_repres = Inr sf"
    and split: "surviving_reviews E (classify E instance_repres) = pre @ r # post"
    and multi: "pre \<noteq> [] \<or> post \<noteq> []"
    and name: "make_extended_component_name C base r (length pre) = Some n"
  shows "\<exists>before new later.
           component_list sf = before @ new @ later
         \<and> (\<forall>a \<in> set new. asset_name (store sf ! a) = n)
         \<and> (\<exists>a \<in> set new. \<exists>m.
               review_metadata C E I base r (get_publish_repre_path E r False) = Inr m
               \<and> store sf ! a = review_component base n (get_publish_repre_path E r False) m)
         \<and> (\<forall>d. snd (get_matching_thumbnail_item r (thumbnail_data_items sf)
                        (multiple_synced_thumbnails (classify E instance_repres))) = Some d
               \<longrightarrow> (\<exists>a \<in> set new. store sf ! a = (store sf ! td_item d)\<lparr>asset_name := n\<rparr>)
                 \<and> (\<forall>b. src_component d = Some b
                        \<longrightarrow> (\<exists>a \<in> set new. store sf ! a = (store sf ! b)\<lparr>asset_name := n\<rparr>)))"
  using renaming_run_segment [OF asm split multi name] .

theorem extended_name_propagates_witness:
  "surviving_reviews example_env (classify example_env two_synced) = [review_a] @ review_b # []
   \<and> make_extended_component_name (example_config True []) example_base review_b
        (length [review_a]) = Some ''renderMain_h264_b''
   \<and> (\<exists>sf. assemble (example_config True []) example_env (example_instance (Some two_synced))
              example_base two_synced = Inr sf
         \<and> (\<exists>before new later.
           component_list sf = before @ new @ later
         \<and> (\<forall>a \<in> set new. asset_name (store sf ! a) = ''renderMain_h264_b'')
         \<and> (\<exists>a \<in> set new. \<exists>m.
               review_metadata (example_config True []) example_env (example_instance (Some two_synced)) example_base review_b (get_publish_repre_path example_env review_b False) = Inr m
               \<and> store sf ! a = review_component example_base ''renderMain_h264_b'' (get_publish_repre_path example_env review_b False) m)
         \<and> (\<forall>d. snd (get_matching_thumbnail_item review_b (thumbnail_data_items sf)
                        (multiple_synced_thumbnails (classify example_env two_synced))) = Some d
               \<longrightarrow> (\<exists>a \<in> set new. store sf ! a = (store sf ! td_item d)\<lparr>asset_name := ''renderMain_h264_b''\<rparr>)
                 \<and> (\<forall>b. src_component d = Some b
                        \<longrightarrow> (\<exists>a \<in> set new. store sf ! a = (store sf ! b)\<lparr>asset_name := ''renderMain_h264_b''\<rparr>)))))"
proof -
  have split: "surviving_reviews example_env (classify example_env two_synced)
               = [review_a] @ review_b # []"
    using two_synced_split by simp
  have name: "make_extended_component_name (example_config True []) example_base review_b
                (length [review_a]) = Some ''renderMain_h264_b''"
    by (simp add: make_extended_component_name_def example_base_def base_component_item_def
          review_b_def example_repre_def)
  from two_synced_succeeds obtain sf where
    sf: "assemble (example_config True []) example_env (example_instance (Some two_synced))
           example_base two_synced = Inr sf"
    by blast
  have multi: "[review_a] \<noteq> [] \<or> ([] :: repre list) \<noteq> []"
    by simp
  note extended_name_propagates [OF sf split multi name]
  with sf split name show ?thesis by blast
qed

text \<open>
  Claim C6, as the code has it.  The extended name is suppressed only when the option to
  keep the first product name is on and the index is 0.  With the option off and more
  than one surviving review, the run for every surviving review, the first one included,
  appends a segment in which every entry carries the name made of the asset name, an
  underscore and the name of the representation: the review item, and the copies of the
  matched thumbnail item and of its shadow.
\<close>

theorem renaming_without_kept_first_name:
  assumes asm: "assemble C E I base instance_repres = Inr sf"
    and split: "surviving_reviews E (classify E instance_repres) = pre @ r # post"
    and multi: "pre \<noteq> [] \<or> post \<noteq> []"
    and flag: "\<not> keep_first_product_name_for_review C"
  shows "(\<forall>C' idx. make_extended_component_name C' base r idx = None
            \<longleftrightarrow> keep_first_product_name_for_review C' \<and> idx = 0)
       \<and> make_extended_component_name C base r (length pre)
           = Some (asset_name base @ ''_'' @ r_name r)
       \<and> (\<exists>before new later.
           component_list sf = before @ new @ later
         \<and> (\<forall>a \<in> set new. asset_name (store sf ! a) = (asset_name base @ ''_'' @ r_name r))
         \<and> (\<exists>a \<in> set new. \<exists>m.
               review_metadata C E I base r (get_publish_repre_path E r False) = Inr m
               \<and> store sf ! a = review_component base (asset_name base @ ''_'' @ r_name r) (get_publish_repre_path E r False) m)
         \<and> (\<forall>d. snd (get_matching_thumbnail_item r (thumbnail_data_items sf)
                        (multiple_synced_thumbnails (classify E instance_repres))) = Some d
               \<longrightarrow> (\<exists>a \<in> set new. store sf ! a = (store sf ! td_item d)\<lparr>asset_name := (asset_name base @ ''_'' @ r_name r)\<rparr>)
                 \<and> (\<forall>b. src_component d = Some b
                        \<longrightarrow> (\<exists>a \<in> set new. store sf ! a = (store sf ! b)\<lparr>asset_name := (asset_name base @ ''_'' @ r_name r)\<rparr>))))"
proof -
  have name: "make_extended_component_name C base r (length pre)
              = Some (asset_name base @ ''_'' @ r_name r)"
    using flag by (simp add: make_extended_component_name_def)
  have "\<forall>C' idx. make_extended_component_name C' base r idx = None
            \<longleftrightarrow> keep_first_product_name_for_review C' \<and> idx = 0"
    by (simp add: make_extended_component_name_def)
  with name renaming_run_segment [OF asm split multi name] show ?thesis
    by blast
qed

theorem renaming_without_kept_first_name_counterexample:
  "listed_names (process (example_config False []) example_env
                   (example_instance (Some two_synced)))
   = [(''renderMain_h264_a'', ''thumbnail_src''),
      (''renderMain_h264_b'', ''thumbnail_src''),
      (''renderMain_h264_a'', ''thumbnail''),
      (''renderMain_h264_a'', ''thumbnail_src''),
      (''renderMain_h264_a'', ''ftrackreview-mp4_src''),
      (''renderMain_h264_a'', ''ftrackreview-mp4''),
      (''renderMain_h264_b'', ''thumbnail''),
      (''renderMain_h264_b'', ''thumbnail_src''),
      (''renderMain_h264_b'', ''ftrackreview-mp4_src''),
      (''renderMain_h264_b'', ''ftrackreview-mp4'')]
   \<and> (''renderMain'', ''ftrackreview-mp4'')
       \<notin> set (listed_names (process (example_config False []) example_env
                                (example_instance (Some two_synced))))"
proof -
  have reprs: "i_representations (example_instance (Some two_synced)) = Some two_synced"
    by (simp add: example_instance_def)
  have ne: "two_synced \<noteq> []"
    by (simp add: two_synced_def)
  show ?thesis
    unfolding process_of_assemble [OF reprs ne example_make_base] two_synced_names
    by simp
qed

theorem renaming_without_kept_first_name_witness:
  "surviving_reviews example_env (classify example_env two_synced) = [] @ review_a # [review_b]
   \<and> \<not> keep_first_product_name_for_review (example_config False [])
   \<and> asset_name example_base @ ''_'' @ r_name review_a = ''renderMain_h264_a''
   \<and> (\<exists>sf. assemble (example_config False []) example_env (example_instance (Some two_synced))
              example_base two_synced = Inr sf
         \<and> (\<exists>before new later.
           component_list sf = before @ new @ later
         \<and> (\<forall>a \<in> set new. asset_name (store sf ! a) = ''renderMain_h264_a'')
         \<and> (\<exists>a \<in> set new. \<exists>m.
               review_metadata (example_config False []) example_env (example_instance (Some two_synced)) example_base review_a (get_publish_repre_path example_env review_a False) = Inr m
               \<and> store sf ! a = review_component example_base ''renderMain_h264_a'' (get_publish_repre_path example_env review_a False) m)
         \<and> (\<forall>d. snd (get_matching_thumbnail_item review_a (thumbnail_data_items sf)
                        (multiple_synced_thumbnails (classify example_env two_synced))) = Some d
               \<longrightarrow> (\<exists>a \<in> set new. store sf ! a = (store sf ! td_item d)\<lparr>asset_name := ''renderMain_h264_a''\<rparr>)
                 \<and> (\<forall>b. src_component d = Some b
                        \<longrightarrow> (\<exists>a \<in> set new. store sf ! a = (store sf ! b)\<lparr>asset_name := ''renderMain_h264_a''\<rparr>)))))"
proof -
  have split: "surviving_reviews example_env (classify example_env two_synced)
               = [] @ review_a # [review_b]"
    using two_synced_split by simp
  have flag: "\<not> keep_first_product_name_for_review (example_config False [])"
    by (simp add: example_config_def)
  have n: "asset_name example_base @ ''_'' @ r_name review_a = ''renderMain_h264_a''"
    by (simp add: example_base_def base_component_item_def review_a_def example_repre_def)
  from two_synced_succeeds_unkept obtain sf where
    sf: "assemble (example_config False []) example_env (example_instance (Some two_synced))
           example_base two_synced = Inr sf"
    by blast
  have multi: "([] :: repre list) \<noteq> [] \<or> [review_b] \<noteq> []"
    by simp
  note renaming_without_kept_first_name [OF sf split multi flag, unfolded n]
  with sf split flag n show ?thesis by blast
qed

end
